theory Spec2Isabelle
  imports Complex_Main "HOL-Library.Word"
begin

section \<open>Dense tensors\<close>

text \<open>
  A torch tensor is modelled by its size and its elements in row-major (contiguous)
  order. Elements are real numbers: the arithmetic of the model is exact.
\<close>

record tensor =
  shape :: "nat list"
  data :: "real list"

definition numel :: "tensor \<Rightarrow> nat" where
  "numel t = prod_list (shape t)"

definition wf_tensor :: "tensor \<Rightarrow> bool" where
  "wf_tensor t = (length (data t) = prod_list (shape t))"

text \<open>Row-major offset of a multi-index, and the multi-index of an offset.\<close>

fun ravel :: "nat list \<Rightarrow> nat list \<Rightarrow> nat" where
  "ravel (d # ds) (i # is) = i * prod_list ds + ravel ds is"
| "ravel _ _ = 0"

fun unravel :: "nat list \<Rightarrow> nat \<Rightarrow> nat list" where
  "unravel [] p = []"
| "unravel (d # ds) p = (p div prod_list ds) # unravel ds (p mod prod_list ds)"

definition valid_index :: "nat list \<Rightarrow> nat list \<Rightarrow> bool" where
  "valid_index s idx = list_all2 (<) idx s"

definition tget :: "tensor \<Rightarrow> nat list \<Rightarrow> real" where
  "tget t idx = data t ! ravel (shape t) idx"

definition tabulate :: "nat list \<Rightarrow> (nat list \<Rightarrow> real) \<Rightarrow> tensor" where
  "tabulate s f = \<lparr>shape = s, data = map (\<lambda>p. f (unravel s p)) [0..<prod_list s]\<rparr>"

datatype error = AssertionError | AttributeError | IndexError | ValueError | RuntimeError

definition bind_err :: "error + 'a \<Rightarrow> ('a \<Rightarrow> error + 'b) \<Rightarrow> error + 'b" where
  "bind_err r f = (case r of Inl e \<Rightarrow> Inl e | Inr x \<Rightarrow> f x)"

section \<open>The tensor operations used by the layer\<close>

text \<open>\<open>t.permute(0, 2, 3, 1).contiguous()\<close>: element \<open>[b, h, w, c]\<close> of the result is
  element \<open>[b, c, h, w]\<close> of \<open>t\<close>; only a 4-D tensor can be permuted by four axes.\<close>

definition permute_0231 :: "tensor \<Rightarrow> error + tensor" where
  "permute_0231 t =
     (case shape t of
        [d0, d1, d2, d3] \<Rightarrow>
          Inr (tabulate [d0, d2, d3, d1] (\<lambda>idx. tget t [idx ! 0, idx ! 3, idx ! 1, idx ! 2]))
      | _ \<Rightarrow> Inl RuntimeError)"

text \<open>\<open>t.view(-1, c)\<close>: the elements are kept, the leading size is inferred; it fails
  when the size cannot be inferred.\<close>

definition view_rows :: "tensor \<Rightarrow> nat \<Rightarrow> error + tensor" where
  "view_rows t c =
     (if c = 0 \<or> numel t mod c \<noteq> 0 then Inl RuntimeError
      else Inr (t\<lparr>shape := [numel t div c, c]\<rparr>))"

text \<open>\<open>t.view(s)\<close> with every size given.\<close>

definition view :: "tensor \<Rightarrow> nat list \<Rightarrow> error + tensor" where
  "view t s = (if prod_list s = numel t then Inr (t\<lparr>shape := s\<rparr>) else Inl RuntimeError)"

text \<open>\<open>a.mm(b)\<close>: the product of two matrices.\<close>

definition mm :: "tensor \<Rightarrow> tensor \<Rightarrow> error + tensor" where
  "mm a b =
     (case (shape a, shape b) of
        ([n, k], [k', m]) \<Rightarrow>
          if k = k' then
            Inr (tabulate [n, m]
                  (\<lambda>idx. \<Sum>j<k. tget a [idx ! 0, j] * tget b [j, idx ! 1]))
          else Inl RuntimeError
      | _ \<Rightarrow> Inl RuntimeError)"

definition zeros :: "nat list \<Rightarrow> tensor" where
  "zeros s = tabulate s (\<lambda>idx. 0)"

text \<open>Element-wise binary operations with broadcasting: the sizes are aligned at the
  last axis, and an axis of size 1 is stretched.\<close>

definition pad_rank :: "nat \<Rightarrow> tensor \<Rightarrow> tensor" where
  "pad_rank r t = t\<lparr>shape := replicate (r - length (shape t)) 1 @ shape t\<rparr>"

definition broadcast_shape :: "nat list \<Rightarrow> nat list \<Rightarrow> nat list option" where
  "broadcast_shape s1 s2 =
     (if list_all2 (\<lambda>a b. a = b \<or> a = 1 \<or> b = 1) s1 s2
      then Some (map2 (\<lambda>a b. if a = 1 then b else a) s1 s2) else None)"

definition broadcast_index :: "nat list \<Rightarrow> nat list \<Rightarrow> nat list" where
  "broadcast_index s idx = map2 (\<lambda>d i. if d = 1 then 0 else i) s idx"

definition elementwise :: "(real \<Rightarrow> real \<Rightarrow> real) \<Rightarrow> tensor \<Rightarrow> tensor \<Rightarrow> error + tensor" where
  "elementwise f a b =
     (let r = max (length (shape a)) (length (shape b));
          a' = pad_rank r a; b' = pad_rank r b
      in case broadcast_shape (shape a') (shape b') of
           None \<Rightarrow> Inl RuntimeError
         | Some s \<Rightarrow>
             Inr (tabulate s (\<lambda>idx. f (tget a' (broadcast_index (shape a') idx))
                                     (tget b' (broadcast_index (shape b') idx)))))"

definition mul :: "tensor \<Rightarrow> tensor \<Rightarrow> error + tensor" where
  "mul = elementwise (*)"

definition sub :: "tensor \<Rightarrow> tensor \<Rightarrow> error + tensor" where
  "sub = elementwise (-)"

definition add :: "tensor \<Rightarrow> tensor \<Rightarrow> error + tensor" where
  "add = elementwise (+)"

text \<open>\<open>t.sum(dim=1)\<close>: the axis 1 is summed away.\<close>

definition sum_dim1 :: "tensor \<Rightarrow> error + tensor" where
  "sum_dim1 t =
     (case shape t of
        d0 # d1 # rest \<Rightarrow>
          Inr (tabulate (d0 # rest) (\<lambda>idx. \<Sum>j<d1. tget t (hd idx # j # tl idx)))
      | _ \<Rightarrow> Inl IndexError)"

section \<open>The Fourier transform along the last axis\<close>

text \<open>
  The transform of the library the layer calls (\<open>Fft\<close> and \<open>Ifft\<close> of pytorch_fft) is
  the discrete Fourier transform of each row, on separate real and imaginary parts; the
  inverse carries the factor \<open>1/n\<close>.
\<close>

definition dft :: "complex list \<Rightarrow> complex list" where
  "dft zs =
     map (\<lambda>k. \<Sum>j<length zs. zs ! j * cis (- (2 * pi * real j * real k / real (length zs))))
       [0..<length zs]"

definition idft :: "complex list \<Rightarrow> complex list" where
  "idft zs =
     map (\<lambda>j. (\<Sum>k<length zs. zs ! k * cis (2 * pi * real j * real k / real (length zs)))
               / of_nat (length zs))
       [0..<length zs]"

text \<open>The row of a pair (real part, imaginary part) through a multi-index.\<close>

definition fibre :: "tensor \<Rightarrow> tensor \<Rightarrow> nat list \<Rightarrow> complex list" where
  "fibre re im idx =
     map (\<lambda>j. Complex (tget re (butlast idx @ [j])) (tget im (butlast idx @ [j])))
       [0..<last (shape re)]"

definition Fft :: "tensor \<Rightarrow> tensor \<Rightarrow> error + tensor \<times> tensor" where
  "Fft re im =
     (if shape re \<noteq> shape im \<or> shape re = [] then Inl RuntimeError
      else Inr (tabulate (shape re) (\<lambda>idx. Re (dft (fibre re im idx) ! last idx)),
                tabulate (shape re) (\<lambda>idx. Im (dft (fibre re im idx) ! last idx))))"

definition Ifft :: "tensor \<Rightarrow> tensor \<Rightarrow> error + tensor \<times> tensor" where
  "Ifft re im =
     (if shape re \<noteq> shape im \<or> shape re = [] then Inl RuntimeError
      else Inr (tabulate (shape re) (\<lambda>idx. Re (idft (fibre re im idx) ! last idx)),
                tabulate (shape re) (\<lambda>idx. Im (idft (fibre re im idx) ! last idx))))"

section \<open>The layer\<close>

text \<open>\<open>torch.sparse.FloatTensor(indices, values, size).to_dense()\<close>: every entry is the
  sum of the values stored at its index.\<close>

definition sparse_to_dense :: "(nat \<times> nat) list \<Rightarrow> real list \<Rightarrow> nat \<Rightarrow> nat \<Rightarrow> tensor" where
  "sparse_to_dense indices vals n m =
     tabulate [n, m]
       (\<lambda>idx. sum_list (map snd (filter (\<lambda>p. fst p = (idx ! 0, idx ! 1)) (zip indices vals))))"

text \<open>
  A 1-D array handed to \<open>generate_sketch_matrix\<close> is a numpy array, which is what a
  caller supplies, or a torch tensor, which is what \<open>torch.randint\<close> draws. Only the
  numpy array has the method \<open>astype\<close>.
\<close>

datatype 'a array = NumpyArray "'a list" | TorchTensor "'a list"

text \<open>
  \<open>generate_sketch_matrix\<close>. The two casts come first, and each needs a numpy array.
  \<open>rand_h\<close> holds 64-bit signed integers, read by \<open>sint\<close>, and \<open>rand_s\<close> holds
  float32 values, read as the reals they are: on such arrays \<open>astype(np.int64)\<close> and
  \<open>astype(np.float32)\<close> change nothing. The two assertions follow.
\<close>

definition generate_sketch_matrix :: "64 word array \<Rightarrow> real array \<Rightarrow> nat \<Rightarrow> error + tensor" where
  "generate_sketch_matrix rand_h rand_s output_dim =
     (case rand_h of
        TorchTensor _ \<Rightarrow> Inl AttributeError
      | NumpyArray h \<Rightarrow>
     (case rand_s of
        TorchTensor _ \<Rightarrow> Inl AttributeError
      | NumpyArray s \<Rightarrow>
          if length h \<noteq> length s then Inl AssertionError
          else if \<not> (list_all (\<lambda>x. 0 \<le> sint x) h \<and>
                       list_all (\<lambda>x. sint x < int output_dim) h)
            then Inl AssertionError
          else
            let input_dim = length h;
                indices = map (\<lambda>i. (i, nat (sint (h ! i)))) [0..<input_dim]
            in Inr (sparse_to_dense indices s input_dim output_dim)))"

text \<open>
  The global random generator of torch: \<open>manual_seed\<close> replaces its state by the state
  of the seed, \<open>randint\<close> draws 64-bit integers from it and advances it. The generator
  itself is a parameter of the model. \<open>torch.randint\<close> refuses an empty range.
\<close>

record 'g torch_random =
  manual_seed :: "nat \<Rightarrow> 'g"
  randint :: "nat \<Rightarrow> nat \<Rightarrow> 'g \<Rightarrow> 64 word list \<times> 'g"

definition torch_randint ::
  "'g torch_random \<Rightarrow> nat \<Rightarrow> nat \<Rightarrow> 'g \<Rightarrow> (error + 64 word list) \<times> 'g" where
  "torch_randint R high n g =
     (if high = 0 then (Inl RuntimeError, g)
      else (Inr (fst (randint R high n g)), snd (randint R high n g)))"

text \<open>The two defaults of \<open>__init__\<close>: a sequence that is given is a numpy array and is
  kept; one that is \<open>None\<close> is drawn, after the generator is reseeded, and is a torch
  tensor.\<close>

definition default_rand_h ::
  "'g torch_random \<Rightarrow> nat \<Rightarrow> nat \<Rightarrow> nat \<Rightarrow> 64 word list option \<Rightarrow> 'g \<Rightarrow>
   (error + 64 word array) \<times> 'g" where
  "default_rand_h R seed output_dim input_dim rand_h g =
     (case rand_h of
        Some h \<Rightarrow> (Inr (NumpyArray h), g)
      | None \<Rightarrow>
          (case torch_randint R output_dim input_dim (manual_seed R seed) of
             (Inl e, g') \<Rightarrow> (Inl e, g')
           | (Inr xs, g') \<Rightarrow> (Inr (TorchTensor xs), g')))"

definition default_rand_s ::
  "'g torch_random \<Rightarrow> nat \<Rightarrow> nat \<Rightarrow> real list option \<Rightarrow> 'g \<Rightarrow>
   (error + real array) \<times> 'g" where
  "default_rand_s R seed input_dim rand_s g =
     (case rand_s of
        Some s \<Rightarrow> (Inr (NumpyArray s), g)
      | None \<Rightarrow>
          (case torch_randint R 2 input_dim (manual_seed R seed) of
             (Inl e, g') \<Rightarrow> (Inl e, g')
           | (Inr xs, g') \<Rightarrow>
               (Inr (TorchTensor (map (\<lambda>x. real_of_int (sint (2 * x - 1))) xs)), g')))"

record layer =
  input_dim1 :: nat
  input_dim2 :: nat
  output_dim :: nat
  sum_pool :: bool
  sparse_sketch_matrix1 :: tensor
  sparse_sketch_matrix2 :: tensor

text \<open>\<open>__init__\<close>, with the global generator state passed in and out: the state at
  the point where construction returns or raises. The device placement does not change a
  value and is left out.\<close>

definition init ::
  "'g torch_random \<Rightarrow> nat \<Rightarrow> nat \<Rightarrow> nat \<Rightarrow> bool \<Rightarrow>
   64 word list option \<Rightarrow> real list option \<Rightarrow> 64 word list option \<Rightarrow>
   real list option \<Rightarrow> 'g \<Rightarrow> (error + layer) \<times> 'g" where
  "init R in_dim1 in_dim2 out_dim pool rand_h_1 rand_s_1 rand_h_2 rand_s_2 g0 =
     (case default_rand_h R 1 out_dim in_dim1 rand_h_1 g0 of
        (Inl e, g1) \<Rightarrow> (Inl e, g1)
      | (Inr h1, g1) \<Rightarrow>
     (case default_rand_s R 3 in_dim1 rand_s_1 g1 of
        (Inl e, g2) \<Rightarrow> (Inl e, g2)
      | (Inr s1, g2) \<Rightarrow>
     (case generate_sketch_matrix h1 s1 out_dim of
        Inl e \<Rightarrow> (Inl e, g2)
      | Inr m1 \<Rightarrow>
     (case default_rand_h R 5 out_dim in_dim2 rand_h_2 g2 of
        (Inl e, g3) \<Rightarrow> (Inl e, g3)
      | (Inr h2, g3) \<Rightarrow>
     (case default_rand_s R 7 in_dim2 rand_s_2 g3 of
        (Inl e, g4) \<Rightarrow> (Inl e, g4)
      | (Inr s2, g4) \<Rightarrow>
     (case generate_sketch_matrix h2 s2 out_dim of
        Inl e \<Rightarrow> (Inl e, g4)
      | Inr m2 \<Rightarrow>
          (Inr \<lparr>input_dim1 = in_dim1, input_dim2 = in_dim2, output_dim = out_dim,
                sum_pool = pool, sparse_sketch_matrix1 = m1,
                sparse_sketch_matrix2 = m2\<rparr>, g4)))))))"

text \<open>\<open>forward\<close>. \<open>size(1)\<close> needs a second axis; the assertion compares the channel
  sizes, the first one first; the unpacking of \<open>bottom1.size()\<close> needs four axes.\<close>

definition forward :: "layer \<Rightarrow> tensor \<Rightarrow> tensor \<Rightarrow> error + tensor" where
  "forward L bottom1 bottom2 =
     (if length (shape bottom1) < 2 then Inl IndexError
      else if shape bottom1 ! 1 \<noteq> input_dim1 L then Inl AssertionError
      else if length (shape bottom2) < 2 then Inl IndexError
      else if shape bottom2 ! 1 \<noteq> input_dim2 L then Inl AssertionError
      else
        (case shape bottom1 of
           [batch_size, _, height, width] \<Rightarrow>
             bind_err (permute_0231 bottom1) (\<lambda>p1.
             bind_err (view_rows p1 (input_dim1 L)) (\<lambda>bottom1_flat.
             bind_err (permute_0231 bottom2) (\<lambda>p2.
             bind_err (view_rows p2 (input_dim2 L)) (\<lambda>bottom2_flat.
             bind_err (mm bottom1_flat (sparse_sketch_matrix1 L)) (\<lambda>sketch_1.
             bind_err (mm bottom2_flat (sparse_sketch_matrix2 L)) (\<lambda>sketch_2.
             bind_err (Fft sketch_1 (zeros (shape sketch_1))) (\<lambda>(fft1_real, fft1_imag).
             bind_err (Fft sketch_2 (zeros (shape sketch_2))) (\<lambda>(fft2_real, fft2_imag).
             bind_err (mul fft1_real fft2_real) (\<lambda>temp_rr.
             bind_err (mul fft1_imag fft2_imag) (\<lambda>temp_ii.
             bind_err (sub temp_rr temp_ii) (\<lambda>fft_product_real.
             bind_err (add temp_rr temp_ii) (\<lambda>fft_product_imag.
             bind_err (Ifft fft_product_real fft_product_imag) (\<lambda>(cbp_flat, _).
             bind_err (view cbp_flat [batch_size, height, width, output_dim L]) (\<lambda>cbp.
             if sum_pool L
             then bind_err (sum_dim1 cbp) (\<lambda>cbp1. sum_dim1 cbp1)
             else Inr cbp))))))))))))))
         | _ \<Rightarrow> Inl ValueError))"

section \<open>Valid layers and inputs\<close>

text \<open>A layer is valid when its dimensions are positive and its two sketch matrices are
  well-formed matrices of sizes \<open>[input_dim1, output_dim]\<close> and
  \<open>[input_dim2, output_dim]\<close>; a pair of inputs is valid for it when both are well-formed
  and have the sizes \<open>[B, input_dim1, H, W]\<close> and \<open>[B, input_dim2, H, W]\<close>.\<close>

definition valid_layer :: "layer \<Rightarrow> bool" where
  "valid_layer L =
     (0 < input_dim1 L \<and> 0 < input_dim2 L \<and> 0 < output_dim L \<and>
      wf_tensor (sparse_sketch_matrix1 L) \<and> wf_tensor (sparse_sketch_matrix2 L) \<and>
      shape (sparse_sketch_matrix1 L) = [input_dim1 L, output_dim L] \<and>
      shape (sparse_sketch_matrix2 L) = [input_dim2 L, output_dim L])"

definition valid_inputs :: "layer \<Rightarrow> tensor \<Rightarrow> tensor \<Rightarrow> nat \<Rightarrow> nat \<Rightarrow> nat \<Rightarrow> bool" where
  "valid_inputs L bottom1 bottom2 B H W =
     (wf_tensor bottom1 \<and> wf_tensor bottom2 \<and>
      shape bottom1 = [B, input_dim1 L, H, W] \<and> shape bottom2 = [B, input_dim2 L, H, W])"

section \<open>The computation at one location\<close>

text \<open>The channel vector of an input at a location, and at a row of the flattened
  input.\<close>

definition chan :: "tensor \<Rightarrow> nat \<Rightarrow> nat \<Rightarrow> nat \<Rightarrow> real list" where
  "chan t b h w = map (\<lambda>c. tget t [b, c, h, w]) [0..<shape t ! 1]"

definition row_chan :: "tensor \<Rightarrow> nat \<Rightarrow> real list" where
  "row_chan t n =
     (let u = unravel [shape t ! 0, shape t ! 2, shape t ! 3] n in chan t (u ! 0) (u ! 1) (u ! 2))"

text \<open>What the layer computes from one pair of channel vectors: the two sketches, their
  transforms, the product as the code forms it (real part \<open>rr - ii\<close>, imaginary part
  \<open>rr + ii\<close>), and the real part of the inverse transform.\<close>

definition sketch_vec :: "tensor \<Rightarrow> real list \<Rightarrow> real list" where
  "sketch_vec M u = map (\<lambda>k. \<Sum>j<length u. u ! j * tget M [j, k]) [0..<shape M ! 1]"

definition freq_product :: "complex list \<Rightarrow> complex list \<Rightarrow> complex list" where
  "freq_product F1 F2 =
     map2 (\<lambda>a b. Complex (Re a * Re b - Im a * Im b) (Re a * Re b + Im a * Im b)) F1 F2"

definition cbp_vec :: "layer \<Rightarrow> real list \<Rightarrow> real list \<Rightarrow> real list" where
  "cbp_vec L u v =
     map Re (idft (freq_product
       (dft (map complex_of_real (sketch_vec (sparse_sketch_matrix1 L) u)))
       (dft (map complex_of_real (sketch_vec (sparse_sketch_matrix2 L) v)))))"

text \<open>The same, collected over the rows and over the locations, and the sum over the
  spatial axes.\<close>

definition sketch_of :: "tensor \<Rightarrow> tensor \<Rightarrow> nat \<Rightarrow> tensor" where
  "sketch_of t M N = tabulate [N, shape M ! 1] (\<lambda>idx. sketch_vec M (row_chan t (idx ! 0)) ! (idx ! 1))"

definition cbp_rows :: "layer \<Rightarrow> tensor \<Rightarrow> tensor \<Rightarrow> nat \<Rightarrow> tensor" where
  "cbp_rows L b1 b2 N =
     tabulate [N, output_dim L]
       (\<lambda>idx. cbp_vec L (row_chan b1 (idx ! 0)) (row_chan b2 (idx ! 0)) ! (idx ! 1))"

definition cbp_of :: "layer \<Rightarrow> tensor \<Rightarrow> tensor \<Rightarrow> tensor" where
  "cbp_of L b1 b2 =
     tabulate [shape b1 ! 0, shape b1 ! 2, shape b1 ! 3, output_dim L]
       (\<lambda>idx. cbp_vec L (chan b1 (idx ! 0) (idx ! 1) (idx ! 2))
                          (chan b2 (idx ! 0) (idx ! 1) (idx ! 2)) ! (idx ! 3))"

definition pooled_of :: "nat \<Rightarrow> nat \<Rightarrow> nat \<Rightarrow> nat \<Rightarrow> tensor \<Rightarrow> tensor" where
  "pooled_of B H W D t =
     tabulate [B, D] (\<lambda>idx. \<Sum>w<W. \<Sum>h<H. tget t [idx ! 0, h, w, idx ! 1])"

section \<open>Operations the properties speak of\<close>

text \<open>The circular convolution of two sequences of the same length.\<close>

definition circular_convolution :: "real list \<Rightarrow> real list \<Rightarrow> real list" where
  "circular_convolution xs ys =
     map (\<lambda>n. \<Sum>m<length xs. xs ! m * ys ! ((n + length xs - m) mod length xs))
       [0..<length xs]"

text \<open>The scalar multiple and the sum of tensors, element by element, and the same
  combination on lists.\<close>

definition tscale :: "real \<Rightarrow> tensor \<Rightarrow> tensor" where
  "tscale c t = t\<lparr>data := map (\<lambda>v. c * v) (data t)\<rparr>"

definition tadd :: "tensor \<Rightarrow> tensor \<Rightarrow> tensor" where
  "tadd x y = \<lparr>shape = shape x, data = map2 (+) (data x) (data y)\<rparr>"

definition lin :: "real \<Rightarrow> real list \<Rightarrow> real list \<Rightarrow> real list" where
  "lin c xs ys = map2 (\<lambda>a b. c * a + b) xs ys"

definition clin :: "real \<Rightarrow> complex list \<Rightarrow> complex list \<Rightarrow> complex list" where
  "clin c xs ys = map2 (\<lambda>a b. complex_of_real c * a + b) xs ys"

section \<open>Concrete instances\<close>

text \<open>A layer with two input channels on the first stream, one on the second and four
  output buckets, and a pair of inputs with two spatial locations.\<close>

definition example_layer :: layer where
  "example_layer =
     \<lparr>input_dim1 = 2, input_dim2 = 1, output_dim = 4, sum_pool = False,
      sparse_sketch_matrix1 = \<lparr>shape = [2, 4], data = [1, 0, 0, 0, 0, 0, -1, 0]\<rparr>,
      sparse_sketch_matrix2 = \<lparr>shape = [1, 4], data = [0, 1, 0, 0]\<rparr>\<rparr>"

definition example_bottom1 :: tensor where
  "example_bottom1 = \<lparr>shape = [1, 2, 2, 1], data = [1, 2, 3, 4]\<rparr>"

definition example_bottom2 :: tensor where
  "example_bottom2 = \<lparr>shape = [1, 1, 2, 1], data = [1, 5]\<rparr>"

text \<open>A second pair of inputs, equal to the first at the location \<open>(0, 0, 0)\<close> only.\<close>

definition example_bottom1' :: tensor where
  "example_bottom1' = \<lparr>shape = [1, 2, 2, 1], data = [1, 7, 3, 9]\<rparr>"

definition example_bottom2' :: tensor where
  "example_bottom2' = \<lparr>shape = [1, 1, 2, 1], data = [1, 6]\<rparr>"

text \<open>A layer with one channel on each stream and four buckets, an input with a single
  location, and two inputs of the same batch size whose heights and widths are
  exchanged.\<close>

definition unit_layer :: layer where
  "unit_layer =
     \<lparr>input_dim1 = 1, input_dim2 = 1, output_dim = 4, sum_pool = False,
      sparse_sketch_matrix1 = \<lparr>shape = [1, 4], data = [1, 0, 0, 0]\<rparr>,
      sparse_sketch_matrix2 = \<lparr>shape = [1, 4], data = [0, 1, 0, 0]\<rparr>\<rparr>"

definition unit_bottom :: tensor where
  "unit_bottom = \<lparr>shape = [1, 1, 1, 1], data = [1]\<rparr>"

definition wide_bottom :: tensor where
  "wide_bottom = \<lparr>shape = [1, 1, 1, 2], data = [1, 2]\<rparr>"

definition tall_bottom :: tensor where
  "tall_bottom = \<lparr>shape = [1, 1, 2, 1], data = [3, 4]\<rparr>"

text \<open>A small generator for concrete runs of the constructor: its state is a counter,
  seeding sets the counter, and a draw reads the counter modulo the bound.\<close>

definition counter_random :: "nat torch_random" where
  "counter_random =
     \<lparr>manual_seed = (\<lambda>seed. seed),
      randint = (\<lambda>high n g. (map (\<lambda>k. of_nat ((g + k) mod high)) [0..<n], g + n))\<rparr>"

section \<open>Facts about tensors\<close>

lemma ravel_less: "list_all2 (<) idx s \<Longrightarrow> ravel s idx < prod_list s"
proof (induction idx s rule: list_all2_induct)
  case Nil
  then show ?case by simp
next
  case (Cons i idx d s)
  have "i * prod_list s + ravel s idx < Suc i * prod_list s"
    using Cons.IH by simp
  also have "\<dots> \<le> d * prod_list s"
    using Cons.hyps(1) by (intro mult_le_mono1) simp
  finally show ?case by simp
qed

lemma unravel_ravel: "list_all2 (<) idx s \<Longrightarrow> unravel s (ravel s idx) = idx"
proof (induction idx s rule: list_all2_induct)
  case Nil
  then show ?case by simp
next
  case (Cons i idx d s)
  have r: "ravel s idx < prod_list s" using Cons.hyps(2) by (rule ravel_less)
  then show ?case using Cons.IH by simp
qed

lemma unravel_valid: "p < prod_list s \<Longrightarrow> list_all2 (<) (unravel s p) s"
proof (induction s arbitrary: p)
  case Nil
  then show ?case by simp
next
  case (Cons d s)
  from Cons.prems have pos: "0 < prod_list s" by (cases "prod_list s = 0") auto
  have "p div prod_list s < d"
    using Cons.prems pos by (simp add: less_mult_imp_div_less mult.commute)
  moreover have "p mod prod_list s < prod_list s" using pos by simp
  ultimately show ?case using Cons.IH by simp
qed

lemma ravel_unravel: "p < prod_list s \<Longrightarrow> ravel s (unravel s p) = p"
proof (induction s arbitrary: p)
  case Nil
  then show ?case by simp
next
  case (Cons d s)
  from Cons.prems have pos: "0 < prod_list s" by (cases "prod_list s = 0") auto
  then have "p mod prod_list s < prod_list s" by simp
  then show ?case using Cons.IH by simp
qed

lemma shape_tabulate [simp]: "shape (tabulate s f) = s"
  by (simp add: tabulate_def)

lemma wf_tabulate [simp]: "wf_tensor (tabulate s f)"
  by (simp add: tabulate_def wf_tensor_def)

lemma tget_tabulate: "valid_index s idx \<Longrightarrow> tget (tabulate s f) idx = f idx"
  by (simp add: tget_def tabulate_def valid_index_def ravel_less unravel_ravel)

lemma data_tabulate_nth: "p < prod_list s \<Longrightarrow> data (tabulate s f) ! p = f (unravel s p)"
  by (simp add: tabulate_def)

lemma tabulate_cong:
  "(\<And>idx. valid_index s idx \<Longrightarrow> f idx = g idx) \<Longrightarrow> tabulate s f = tabulate s g"
  by (simp add: tabulate_def valid_index_def unravel_valid)

lemma divmod_aux:
  fixes n c C P :: nat
  assumes "c < C"
  shows "(n * C + c) div (P * C) = n div P" "(n * C + c) mod (P * C) = (n mod P) * C + c"
proof -
  have d: "(n * C + c) div C = n" and m: "(n * C + c) mod C = c" using assms by simp_all
  show "(n * C + c) div (P * C) = n div P"
    using div_mult2_eq[of "n * C + c" C P] d by (simp add: mult.commute)
  show "(n * C + c) mod (P * C) = (n mod P) * C + c"
    using mod_mult2_eq[of "n * C + c" C P] d m by (simp add: mult.commute)
qed

lemma unravel_snoc:
  "c < C \<Longrightarrow> n < prod_list s \<Longrightarrow> unravel (s @ [C]) (n * C + c) = unravel s n @ [c]"
proof (induction s arbitrary: n)
  case Nil
  then show ?case by simp
next
  case (Cons d s)
  from Cons.prems have pos: "0 < prod_list s" by (cases "prod_list s = 0") auto
  then have "n mod prod_list s < prod_list s" by simp
  then show ?case using Cons.IH[of "n mod prod_list s"] Cons.prems(1)
    by (simp add: divmod_aux)
qed

lemma tensor_eqI:
  assumes "wf_tensor a" "wf_tensor b" "shape a = shape b"
    and "\<And>idx. valid_index (shape a) idx \<Longrightarrow> tget a idx = tget b idx"
  shows "a = (b::tensor)"
proof -
  have "data a = data b"
  proof (rule nth_equalityI)
    show "length (data a) = length (data b)" using assms by (simp add: wf_tensor_def)
    fix p assume "p < length (data a)"
    then have p: "p < prod_list (shape a)" using assms by (simp add: wf_tensor_def)
    then have "valid_index (shape a) (unravel (shape a) p)"
      by (simp add: valid_index_def unravel_valid)
    from assms(4)[OF this] show "data a ! p = data b ! p"
      using p assms(3) by (simp add: tget_def ravel_unravel)
  qed
  then show ?thesis using assms(3) by simp
qed

lemma broadcast_shape_same: "broadcast_shape s s = Some s"
proof -
  have "list_all2 (\<lambda>a b. a = b \<or> a = 1 \<or> b = 1) s s" by (simp add: list_all2_same)
  moreover have "map2 (\<lambda>a b. if a = 1 then b else a) s s = s"
    by (induction s) auto
  ultimately show ?thesis by (simp add: broadcast_shape_def)
qed

lemma broadcast_index_valid: "list_all2 (<) idx s \<Longrightarrow> broadcast_index s idx = idx"
  unfolding broadcast_index_def
  by (induction idx s rule: list_all2_induct) auto

lemma pad_rank_same: "pad_rank (length (shape t)) t = t"
  by (simp add: pad_rank_def)

lemma elementwise_same_shape:
  assumes "shape a = shape b"
  shows "elementwise f a b = Inr (tabulate (shape a) (\<lambda>idx. f (tget a idx) (tget b idx)))"
proof -
  have r: "max (length (shape a)) (length (shape b)) = length (shape a)"
    using assms by simp
  have pa: "pad_rank (length (shape a)) a = a" by (rule pad_rank_same)
  have pb: "pad_rank (length (shape a)) b = b" using pad_rank_same[of b] assms by simp
  have "tabulate (shape a) (\<lambda>idx. f (tget a (broadcast_index (shape a) idx))
                                     (tget b (broadcast_index (shape b) idx)))
        = tabulate (shape a) (\<lambda>idx. f (tget a idx) (tget b idx))"
    by (rule tabulate_cong) (simp add: valid_index_def broadcast_index_valid assms[symmetric])
  then show ?thesis
    unfolding elementwise_def Let_def r pa pb
    using assms by (simp add: broadcast_shape_same)
qed

lemma valid_index2: "valid_index [N, D] idx \<longleftrightarrow> (\<exists>n k. idx = [n, k] \<and> n < N \<and> k < D)"
  by (auto simp: valid_index_def list_all2_Cons2)

lemma valid_index4:
  "valid_index [B, H, W, D] idx \<longleftrightarrow>
     (\<exists>b h w d. idx = [b, h, w, d] \<and> b < B \<and> h < H \<and> w < W \<and> d < D)"
  by (auto simp: valid_index_def list_all2_Cons2)

lemma flat_tget:
  assumes sh: "shape t = [B, C, H, W]" and n: "n < B * H * W" and c: "c < C"
    and P: "permute_0231 t = Inr P"
  shows "tget (P\<lparr>shape := [B * H * W, C]\<rparr>) [n, c] = row_chan t n ! c"
proof -
  have Pd: "P = tabulate [B, H, W, C] (\<lambda>idx. tget t [idx ! 0, idx ! 3, idx ! 1, idx ! 2])"
    using P sh by (simp add: permute_0231_def)
  have n': "n < prod_list [B, H, W]" using n by (simp add: mult.assoc)
  have lt: "n * C + c < prod_list [B, H, W, C]"
  proof -
    have "n * C + c < Suc n * C" using c by simp
    also have "\<dots> \<le> (B * H * W) * C" using n by (intro mult_le_mono1) simp
    finally show ?thesis by (simp add: mult.assoc)
  qed
  have u: "unravel [B, H, W, C] (n * C + c) = unravel [B, H, W] n @ [c]"
    using unravel_snoc[OF c n'] by simp
  have len: "length (unravel [B, H, W] n) = 3" by simp
  have "tget (P\<lparr>shape := [B * H * W, C]\<rparr>) [n, c] = data P ! (n * C + c)"
    by (simp add: tget_def)
  also have "\<dots> = tget t [unravel [B, H, W] n ! 0, c, unravel [B, H, W] n ! 1, unravel [B, H, W] n ! 2]"
    unfolding Pd data_tabulate_nth[OF lt] u by (simp add: nth_append)
  also have "\<dots> = row_chan t n ! c"
    using c sh by (simp add: row_chan_def chan_def Let_def)
  finally show ?thesis .
qed

section \<open>Facts about forward\<close>

lemma length_dft [simp]: "length (dft zs) = length zs"
  by (simp add: dft_def)

lemma length_idft [simp]: "length (idft zs) = length zs"
  by (simp add: idft_def)

lemma length_sketch_vec [simp]: "length (sketch_vec M u) = shape M ! 1"
  by (simp add: sketch_vec_def)

lemma length_row_chan [simp]: "length (row_chan t n) = shape t ! 1"
  by (simp add: row_chan_def chan_def Let_def)

lemma sketch_step:
  assumes sh: "shape t = [B, C, H, W]" and M: "shape M = [C, D]" and C: "0 < C"
  shows "\<exists>P BF. permute_0231 t = Inr P \<and> view_rows P C = Inr BF \<and>
           mm BF M = Inr (sketch_of t M (B * H * W))"
proof -
  define P where "P = tabulate [B, H, W, C] (\<lambda>idx. tget t [idx ! 0, idx ! 3, idx ! 1, idx ! 2])"
  have P: "permute_0231 t = Inr P" using sh by (simp add: permute_0231_def P_def)
  have numel: "numel P = (B * H * W) * C" by (simp add: numel_def P_def mult.assoc)
  have V: "view_rows P C = Inr (P\<lparr>shape := [B * H * W, C]\<rparr>)"
    unfolding view_rows_def numel using C by simp
  have D: "shape M ! 1 = D" using M by simp
  have "tabulate [B * H * W, D]
          (\<lambda>idx. \<Sum>j<C. tget (P\<lparr>shape := [B * H * W, C]\<rparr>) [idx ! 0, j] * tget M [j, idx ! 1])
        = sketch_of t M (B * H * W)"
    unfolding sketch_of_def D
  proof (rule tabulate_cong)
    fix idx assume "valid_index [B * H * W, D] idx"
    then obtain n k where idx: "idx = [n, k]" and n: "n < B * H * W" and k: "k < D"
      by (auto simp: valid_index2)
    have "(\<Sum>j<C. tget (P\<lparr>shape := [B * H * W, C]\<rparr>) [n, j] * tget M [j, k])
          = (\<Sum>j<C. row_chan t n ! j * tget M [j, k])"
      by (rule sum.cong) (simp_all add: flat_tget[OF sh n _ P])
    then show "(\<Sum>j<C. tget (P\<lparr>shape := [B * H * W, C]\<rparr>) [idx ! 0, j] * tget M [j, idx ! 1])
          = sketch_vec M (row_chan t (idx ! 0)) ! (idx ! 1)"
      using k sh by (simp add: idx sketch_vec_def M)
  qed
  then have "mm (P\<lparr>shape := [B * H * W, C]\<rparr>) M = Inr (sketch_of t M (B * H * W))"
    by (simp add: mm_def M)
  then show ?thesis using P V by blast
qed

lemma shape_sketch_of [simp]: "shape (sketch_of t M N) = [N, shape M ! 1]"
  by (simp add: sketch_of_def)

lemma tget_sketch_of:
  "n < N \<Longrightarrow> k < shape M ! 1 \<Longrightarrow> tget (sketch_of t M N) [n, k] = sketch_vec M (row_chan t n) ! k"
  by (simp add: sketch_of_def tget_tabulate valid_index2)

lemma fibre_zeros:
  assumes "shape S = [N, D]" "n < N"
  shows "fibre S (zeros [N, D]) [n, k] = map (\<lambda>j. complex_of_real (tget S [n, j])) [0..<D]"
  using assms
  by (simp add: fibre_def zeros_def tget_tabulate valid_index2 complex_of_real_def)

lemma fibre_pair:
  "fibre PR PI [n, k] = map (\<lambda>j. Complex (tget PR [n, j]) (tget PI [n, j])) [0..<last (shape PR)]"
  by (simp add: fibre_def)

lemma forward_rows:
  assumes L: "valid_layer L"
    and sh1: "shape bottom1 = [B, input_dim1 L, H, W]"
    and sh2: "shape bottom2 = [B', input_dim2 L, H', W']"
    and same: "B' * H' * W' = B * H * W"
  shows "forward L bottom1 bottom2
         = (let cbp = (cbp_rows L bottom1 bottom2 (B * H * W))\<lparr>shape := [B, H, W, output_dim L]\<rparr>
            in if sum_pool L then bind_err (sum_dim1 cbp) sum_dim1 else Inr cbp)"
proof -
  define N where "N = B * H * W"
  define D where "D = output_dim L"
  define M1 where "M1 = sparse_sketch_matrix1 L"
  define M2 where "M2 = sparse_sketch_matrix2 L"
  define S1 where "S1 = sketch_of bottom1 M1 N"
  define S2 where "S2 = sketch_of bottom2 M2 N"
  have m1: "shape M1 = [input_dim1 L, D]" and m2: "shape M2 = [input_dim2 L, D]"
    and c1: "0 < input_dim1 L" and c2: "0 < input_dim2 L"
    using L by (simp_all add: valid_layer_def M1_def M2_def D_def)
  obtain P1 BF1 where p1: "permute_0231 bottom1 = Inr P1"
    and v1: "view_rows P1 (input_dim1 L) = Inr BF1" and mm1: "mm BF1 M1 = Inr S1"
    unfolding S1_def N_def using sketch_step[OF sh1 m1 c1] by blast
  obtain P2 BF2 where p2: "permute_0231 bottom2 = Inr P2"
    and v2: "view_rows P2 (input_dim2 L) = Inr BF2" and mm2: "mm BF2 M2 = Inr S2"
    unfolding S2_def N_def same[symmetric] using sketch_step[OF sh2 m2 c2] by blast
  have s1: "shape S1 = [N, D]" and s2: "shape S2 = [N, D]"
    by (simp_all add: S1_def S2_def m1 m2)
  define F1 where "F1 = (\<lambda>n. dft (map complex_of_real (sketch_vec M1 (row_chan bottom1 n))))"
  define F2 where "F2 = (\<lambda>n. dft (map complex_of_real (sketch_vec M2 (row_chan bottom2 n))))"
  have lF1: "length (F1 n) = D" and lF2: "length (F2 n) = D" for n
    by (simp_all add: F1_def F2_def m1 m2)
  have fib1: "fibre S1 (zeros [N, D]) [n, k] = map complex_of_real (sketch_vec M1 (row_chan bottom1 n))"
    if "n < N" for n k
  proof -
    have "map (\<lambda>j. complex_of_real (tget S1 [n, j])) [0..<D]
          = map (\<lambda>j. complex_of_real (sketch_vec M1 (row_chan bottom1 n) ! j)) [0..<D]"
      using that by (simp add: S1_def tget_sketch_of m1)
    also have "\<dots> = map complex_of_real (sketch_vec M1 (row_chan bottom1 n))"
      by (rule nth_equalityI) (simp_all add: m1)
    finally show ?thesis using fibre_zeros[OF s1 that] by simp
  qed
  have fib2: "fibre S2 (zeros [N, D]) [n, k] = map complex_of_real (sketch_vec M2 (row_chan bottom2 n))"
    if "n < N" for n k
  proof -
    have "map (\<lambda>j. complex_of_real (tget S2 [n, j])) [0..<D]
          = map (\<lambda>j. complex_of_real (sketch_vec M2 (row_chan bottom2 n) ! j)) [0..<D]"
      using that by (simp add: S2_def tget_sketch_of m2)
    also have "\<dots> = map complex_of_real (sketch_vec M2 (row_chan bottom2 n))"
      by (rule nth_equalityI) (simp_all add: m2)
    finally show ?thesis using fibre_zeros[OF s2 that] by simp
  qed
  define FR1 where "FR1 = tabulate [N, D] (\<lambda>idx. Re (F1 (idx ! 0) ! (idx ! 1)))"
  define FI1 where "FI1 = tabulate [N, D] (\<lambda>idx. Im (F1 (idx ! 0) ! (idx ! 1)))"
  define FR2 where "FR2 = tabulate [N, D] (\<lambda>idx. Re (F2 (idx ! 0) ! (idx ! 1)))"
  define FI2 where "FI2 = tabulate [N, D] (\<lambda>idx. Im (F2 (idx ! 0) ! (idx ! 1)))"
  have fft1: "Fft S1 (zeros (shape S1)) = Inr (FR1, FI1)"
  proof -
    have "tabulate [N, D] (\<lambda>idx. Re (dft (fibre S1 (zeros [N, D]) idx) ! last idx)) = FR1"
      unfolding FR1_def
      by (rule tabulate_cong) (auto simp: valid_index2 fib1 F1_def)
    moreover have "tabulate [N, D] (\<lambda>idx. Im (dft (fibre S1 (zeros [N, D]) idx) ! last idx)) = FI1"
      unfolding FI1_def
      by (rule tabulate_cong) (auto simp: valid_index2 fib1 F1_def)
    ultimately show ?thesis by (simp add: Fft_def s1 zeros_def[symmetric]) (simp add: zeros_def)
  qed
  have fft2: "Fft S2 (zeros (shape S2)) = Inr (FR2, FI2)"
  proof -
    have "tabulate [N, D] (\<lambda>idx. Re (dft (fibre S2 (zeros [N, D]) idx) ! last idx)) = FR2"
      unfolding FR2_def
      by (rule tabulate_cong) (auto simp: valid_index2 fib2 F2_def)
    moreover have "tabulate [N, D] (\<lambda>idx. Im (dft (fibre S2 (zeros [N, D]) idx) ! last idx)) = FI2"
      unfolding FI2_def
      by (rule tabulate_cong) (auto simp: valid_index2 fib2 F2_def)
    ultimately show ?thesis by (simp add: Fft_def s2 zeros_def[symmetric]) (simp add: zeros_def)
  qed
  define RR where "RR = tabulate [N, D] (\<lambda>idx. Re (F1 (idx ! 0) ! (idx ! 1)) * Re (F2 (idx ! 0) ! (idx ! 1)))"
  define II where "II = tabulate [N, D] (\<lambda>idx. Im (F1 (idx ! 0) ! (idx ! 1)) * Im (F2 (idx ! 0) ! (idx ! 1)))"
  have rr: "mul FR1 FR2 = Inr RR"
  proof -
    have "tabulate [N, D] (\<lambda>idx. tget FR1 idx * tget FR2 idx) = RR"
      unfolding RR_def
      by (rule tabulate_cong) (simp add: FR1_def FR2_def tget_tabulate)
    then show ?thesis
      unfolding mul_def using elementwise_same_shape[of FR1 FR2 "(*)"]
      by (simp add: FR1_def FR2_def)
  qed
  have ii: "mul FI1 FI2 = Inr II"
  proof -
    have "tabulate [N, D] (\<lambda>idx. tget FI1 idx * tget FI2 idx) = II"
      unfolding II_def
      by (rule tabulate_cong) (simp add: FI1_def FI2_def tget_tabulate)
    then show ?thesis
      unfolding mul_def using elementwise_same_shape[of FI1 FI2 "(*)"]
      by (simp add: FI1_def FI2_def)
  qed
  define PR where "PR = tabulate [N, D] (\<lambda>idx. Re (freq_product (F1 (idx ! 0)) (F2 (idx ! 0)) ! (idx ! 1)))"
  define PI where "PI = tabulate [N, D] (\<lambda>idx. Im (freq_product (F1 (idx ! 0)) (F2 (idx ! 0)) ! (idx ! 1)))"
  have pr: "sub RR II = Inr PR"
  proof -
    have "tabulate [N, D] (\<lambda>idx. tget RR idx - tget II idx) = PR"
      unfolding PR_def
      by (rule tabulate_cong)
         (auto simp: RR_def II_def tget_tabulate valid_index2 freq_product_def lF1 lF2)
    then show ?thesis
      unfolding sub_def using elementwise_same_shape[of RR II "(-)"]
      by (simp add: RR_def II_def)
  qed
  have pi: "add RR II = Inr PI"
  proof -
    have "tabulate [N, D] (\<lambda>idx. tget RR idx + tget II idx) = PI"
      unfolding PI_def
      by (rule tabulate_cong)
         (auto simp: RR_def II_def tget_tabulate valid_index2 freq_product_def lF1 lF2)
    then show ?thesis
      unfolding add_def using elementwise_same_shape[of RR II "(+)"]
      by (simp add: RR_def II_def)
  qed
  have fibp: "fibre PR PI [n, k] = freq_product (F1 n) (F2 n)" if "n < N" for n k
  proof (rule nth_equalityI)
    show "length (fibre PR PI [n, k]) = length (freq_product (F1 n) (F2 n))"
      by (simp add: fibre_pair PR_def freq_product_def lF1 lF2)
    fix j assume "j < length (fibre PR PI [n, k])"
    then have j: "j < D" by (simp add: fibre_pair PR_def)
    then show "fibre PR PI [n, k] ! j = freq_product (F1 n) (F2 n) ! j"
      using that by (simp add: fibre_pair PR_def PI_def tget_tabulate valid_index2 complex_eq_iff)
  qed
  have ifft: "Ifft PR PI = Inr (cbp_rows L bottom1 bottom2 N,
                tabulate [N, D] (\<lambda>idx. Im (idft (fibre PR PI idx) ! last idx)))"
  proof -
    have "tabulate [N, D] (\<lambda>idx. Re (idft (fibre PR PI idx) ! last idx))
          = cbp_rows L bottom1 bottom2 N"
      unfolding cbp_rows_def D_def[symmetric]
    proof (rule tabulate_cong)
      fix idx assume "valid_index [N, D] idx"
      then obtain n k where idx: "idx = [n, k]" and n: "n < N" and k: "k < D"
        by (auto simp: valid_index2)
      have eq: "cbp_vec L (row_chan bottom1 n) (row_chan bottom2 n)
                = map Re (idft (freq_product (F1 n) (F2 n)))"
        by (simp add: cbp_vec_def F1_def F2_def M1_def M2_def)
      have len: "length (idft (freq_product (F1 n) (F2 n))) = D"
        by (simp add: freq_product_def lF1 lF2)
      show "Re (idft (fibre PR PI idx) ! last idx)
            = cbp_vec L (row_chan bottom1 (idx ! 0)) (row_chan bottom2 (idx ! 0)) ! (idx ! 1)"
        using k len by (simp add: idx fibp[OF n] eq)
    qed
    then show ?thesis by (simp add: Ifft_def PR_def PI_def)
  qed
  have vw: "view (cbp_rows L bottom1 bottom2 N) [B, H, W, D]
            = Inr ((cbp_rows L bottom1 bottom2 N)\<lparr>shape := [B, H, W, D]\<rparr>)"
    by (simp add: view_def numel_def cbp_rows_def N_def D_def mult.assoc)
  show ?thesis
    unfolding forward_def
    by (simp add: sh1 sh2 M1_def[symmetric] M2_def[symmetric] D_def[symmetric]
          N_def[symmetric] p1 v1 mm1 p2 v2 mm2 fft1 fft2 rr ii pr pi ifft vw bind_err_def Let_def)
qed

lemma forward_valid:
  assumes L: "valid_layer L" and I: "valid_inputs L bottom1 bottom2 B H W"
  shows "forward L bottom1 bottom2
         = (let cbp = (cbp_rows L bottom1 bottom2 (B * H * W))\<lparr>shape := [B, H, W, output_dim L]\<rparr>
            in if sum_pool L then bind_err (sum_dim1 cbp) sum_dim1 else Inr cbp)"
  using I by (intro forward_rows[OF L]) (simp_all add: valid_inputs_def)

lemma valid_index3:
  "valid_index [B, W, D] idx \<longleftrightarrow> (\<exists>b w d. idx = [b, w, d] \<and> b < B \<and> w < W \<and> d < D)"
  by (auto simp: valid_index_def list_all2_Cons2)

lemma row_chan_ravel:
  assumes "shape t = [B, C, H, W]" "b < B" "h < H" "w < W"
  shows "row_chan t (ravel [B, H, W] [b, h, w]) = chan t b h w"
proof -
  have "unravel [B, H, W] (ravel [B, H, W] [b, h, w]) = [b, h, w]"
    by (rule unravel_ravel) (simp add: assms)
  then show ?thesis using assms(1) by (simp add: row_chan_def Let_def)
qed

lemma cbp_rows_view:
  assumes s1: "shape b1 = [B, C1, H, W]" and s2: "shape b2 = [B, C2, H, W]"
  shows "(cbp_rows L b1 b2 (B * H * W))\<lparr>shape := [B, H, W, output_dim L]\<rparr> = cbp_of L b1 b2"
proof (rule tensor_eqI)
  let ?D = "output_dim L"
  let ?X = "(cbp_rows L b1 b2 (B * H * W))\<lparr>shape := [B, H, W, ?D]\<rparr>"
  show "wf_tensor ?X" by (simp add: wf_tensor_def cbp_rows_def tabulate_def mult.assoc)
  show "wf_tensor (cbp_of L b1 b2)" by (simp add: cbp_of_def)
  show "shape ?X = shape (cbp_of L b1 b2)" by (simp add: cbp_of_def s1)
  fix idx assume "valid_index (shape ?X) idx"
  then obtain b h w d where idx: "idx = [b, h, w, d]" and b: "b < B" and h: "h < H"
    and w: "w < W" and d: "d < ?D"
    by (auto simp: valid_index4)
  define n where "n = ravel [B, H, W] [b, h, w]"
  have n: "n < B * H * W"
    using ravel_less[of "[b, h, w]" "[B, H, W]"] b h w by (simp add: n_def mult.assoc)
  have r: "ravel [B, H, W, ?D] [b, h, w, d] = ravel [B * H * W, ?D] [n, d]"
    by (simp add: n_def algebra_simps)
  have "tget ?X idx = data (cbp_rows L b1 b2 (B * H * W)) ! ravel [B, H, W, ?D] [b, h, w, d]"
    by (simp add: tget_def idx del: ravel.simps)
  also have "\<dots> = data (cbp_rows L b1 b2 (B * H * W)) ! ravel [B * H * W, ?D] [n, d]"
    by (simp only: r)
  also have "\<dots> = tget (cbp_rows L b1 b2 (B * H * W)) [n, d]"
    by (simp add: tget_def cbp_rows_def del: ravel.simps)
  also have "\<dots> = cbp_vec L (row_chan b1 n) (row_chan b2 n) ! d"
    using n d by (simp add: cbp_rows_def tget_tabulate valid_index2)
  also have "\<dots> = cbp_vec L (chan b1 b h w) (chan b2 b h w) ! d"
    unfolding n_def row_chan_ravel[OF s1 b h w] row_chan_ravel[OF s2 b h w] ..
  also have "\<dots> = tget (cbp_of L b1 b2) idx"
    using b h w d by (simp add: cbp_of_def s1 tget_tabulate valid_index4 idx)
  finally show "tget ?X idx = tget (cbp_of L b1 b2) idx" .
qed

lemma sum_dim1_twice:
  assumes "shape t = [B, H, W, D]"
  shows "bind_err (sum_dim1 t) sum_dim1
         = Inr (tabulate [B, D] (\<lambda>idx. \<Sum>w<W. \<Sum>h<H. tget t [idx ! 0, h, w, idx ! 1]))"
proof -
  define T where "T = tabulate [B, W, D] (\<lambda>idx. \<Sum>j<H. tget t (hd idx # j # tl idx))"
  have 1: "sum_dim1 t = Inr T" using assms by (simp add: sum_dim1_def T_def)
  have "tabulate [B, D] (\<lambda>idx. \<Sum>j<W. tget T (hd idx # j # tl idx))
        = tabulate [B, D] (\<lambda>idx. \<Sum>w<W. \<Sum>h<H. tget t [idx ! 0, h, w, idx ! 1])"
  proof (rule tabulate_cong)
    fix idx assume "valid_index [B, D] idx"
    then obtain b d where idx: "idx = [b, d]" and b: "b < B" and d: "d < D"
      by (auto simp: valid_index2)
    have "(\<Sum>j<W. tget T [b, j, d]) = (\<Sum>w<W. \<Sum>h<H. tget t [b, h, w, d])"
      by (rule sum.cong) (simp_all add: T_def tget_tabulate valid_index3 b d)
    then show "(\<Sum>j<W. tget T (hd idx # j # tl idx))
               = (\<Sum>w<W. \<Sum>h<H. tget t [idx ! 0, h, w, idx ! 1])"
      by (simp add: idx)
  qed
  then have "sum_dim1 T = Inr (tabulate [B, D] (\<lambda>idx. \<Sum>w<W. \<Sum>h<H. tget t [idx ! 0, h, w, idx ! 1]))"
    by (simp add: sum_dim1_def T_def)
  then show ?thesis by (simp add: 1 bind_err_def)
qed

lemma forward_cbp_of:
  assumes L: "valid_layer L" and I: "valid_inputs L bottom1 bottom2 B H W"
  shows "forward L bottom1 bottom2
         = (if sum_pool L
            then Inr (tabulate [B, output_dim L]
                       (\<lambda>idx. \<Sum>w<W. \<Sum>h<H. tget (cbp_of L bottom1 bottom2) [idx ! 0, h, w, idx ! 1]))
            else Inr (cbp_of L bottom1 bottom2))"
proof -
  have s1: "shape bottom1 = [B, input_dim1 L, H, W]" and s2: "shape bottom2 = [B, input_dim2 L, H, W]"
    using I by (simp_all add: valid_inputs_def)
  have sh: "shape (cbp_of L bottom1 bottom2) = [B, H, W, output_dim L]"
    by (simp add: cbp_of_def s1)
  show ?thesis
    unfolding forward_valid[OF L I] Let_def cbp_rows_view[OF s1 s2]
    by (simp add: sum_dim1_twice[OF sh])
qed

lemma example_valid_layer: "valid_layer example_layer"
  by (simp add: valid_layer_def example_layer_def wf_tensor_def)

lemma example_valid_layer_pool: "valid_layer (example_layer\<lparr>sum_pool := True\<rparr>)"
  by (simp add: valid_layer_def example_layer_def wf_tensor_def)

lemma example_valid_inputs: "valid_inputs example_layer example_bottom1 example_bottom2 1 2 1"
  by (simp add: valid_inputs_def example_layer_def example_bottom1_def example_bottom2_def
        wf_tensor_def)

lemma wf_cbp_of [simp]: "wf_tensor (cbp_of L b1 b2)"
  by (simp add: cbp_of_def)

section \<open>The shape of the output\<close>

text \<open>
  Claim C4. For every valid pair of inputs of sizes \<open>[B, input_dim1, H, W]\<close> and
  \<open>[B, input_dim2, H, W]\<close>, \<open>forward\<close> returns a tensor, of size \<open>[B, output_dim]\<close>
  when \<open>sum_pool\<close> is set and of size \<open>[B, H, W, output_dim]\<close> otherwise.
\<close>

theorem forward_output_shape:
  assumes "valid_layer L" and "valid_inputs L bottom1 bottom2 B H W"
  shows "\<exists>out. forward L bottom1 bottom2 = Inr out \<and> wf_tensor out \<and>
           shape out = (if sum_pool L then [B, output_dim L] else [B, H, W, output_dim L])"
proof -
  have "shape bottom1 = [B, input_dim1 L, H, W]"
    using assms(2) by (simp add: valid_inputs_def)
  then show ?thesis
    unfolding forward_cbp_of[OF assms] by (simp add: cbp_of_def)
qed

theorem forward_output_shape_witness:
  "(\<exists>out. forward example_layer example_bottom1 example_bottom2 = Inr out \<and> wf_tensor out \<and>
      shape out = [1, 2, 1, 4]) \<and>
   (\<exists>out. forward (example_layer\<lparr>sum_pool := True\<rparr>) example_bottom1 example_bottom2 = Inr out \<and>
      wf_tensor out \<and> shape out = [1, 4])"
proof -
  have I: "valid_inputs (example_layer\<lparr>sum_pool := True\<rparr>) example_bottom1 example_bottom2 1 2 1"
    using example_valid_inputs by (simp add: valid_inputs_def)
  show ?thesis
    using forward_output_shape[OF example_valid_layer example_valid_inputs]
      forward_output_shape[OF example_valid_layer_pool I]
    by (simp add: example_layer_def)
qed

lemma valid_layer_sum_pool [simp]: "valid_layer (L\<lparr>sum_pool := p\<rparr>) = valid_layer L"
  by (simp add: valid_layer_def)

lemma valid_inputs_sum_pool [simp]:
  "valid_inputs (L\<lparr>sum_pool := p\<rparr>) b1 b2 B H W = valid_inputs L b1 b2 B H W"
  by (simp add: valid_inputs_def)

lemma cbp_of_sum_pool [simp]: "cbp_of (L\<lparr>sum_pool := p\<rparr>) b1 b2 = cbp_of L b1 b2"
  by (simp add: cbp_of_def cbp_vec_def)

lemma tget_cbp_of:
  assumes "shape b1 = [B, C, H, W]" "b < B" "h < H" "w < W" "d < output_dim L"
  shows "tget (cbp_of L b1 b2) [b, h, w, d]
         = cbp_vec L (chan b1 b h w) (chan b2 b h w) ! d"
  using assms by (simp add: cbp_of_def tget_tabulate valid_index4)

section \<open>Sum pooling\<close>

text \<open>
  Claim C5. For every valid pair of inputs, the output of \<open>forward\<close> with \<open>sum_pool\<close>
  set is the sum over the height and width axes of the output with \<open>sum_pool\<close> unset, on
  the same inputs and sketch matrices: \<open>pooled[b, d]\<close> is the sum over \<open>h\<close> and \<open>w\<close> of
  \<open>unpooled[b, h, w, d]\<close>.
\<close>

theorem sum_pool_is_spatial_sum:
  assumes "valid_layer L" and "valid_inputs L bottom1 bottom2 B H W"
  shows "\<exists>pooled unpooled.
           forward (L\<lparr>sum_pool := True\<rparr>) bottom1 bottom2 = Inr pooled \<and>
           forward (L\<lparr>sum_pool := False\<rparr>) bottom1 bottom2 = Inr unpooled \<and>
           shape pooled = [B, output_dim L] \<and>
           shape unpooled = [B, H, W, output_dim L] \<and>
           (\<forall>b<B. \<forall>d<output_dim L.
              tget pooled [b, d] = (\<Sum>h<H. \<Sum>w<W. tget unpooled [b, h, w, d]))"
proof -
  let ?u = "cbp_of L bottom1 bottom2"
  let ?p = "tabulate [B, output_dim L] (\<lambda>idx. \<Sum>w<W. \<Sum>h<H. tget ?u [idx ! 0, h, w, idx ! 1])"
  have s1: "shape bottom1 = [B, input_dim1 L, H, W]"
    using assms(2) by (simp add: valid_inputs_def)
  have P: "forward (L\<lparr>sum_pool := True\<rparr>) bottom1 bottom2 = Inr ?p"
    using forward_cbp_of[of "L\<lparr>sum_pool := True\<rparr>" bottom1 bottom2 B H W] assms by simp
  have U: "forward (L\<lparr>sum_pool := False\<rparr>) bottom1 bottom2 = Inr ?u"
    using forward_cbp_of[of "L\<lparr>sum_pool := False\<rparr>" bottom1 bottom2 B H W] assms by simp
  have "tget ?p [b, d] = (\<Sum>h<H. \<Sum>w<W. tget ?u [b, h, w, d])"
    if "b < B" "d < output_dim L" for b d
  proof -
    have "tget ?p [b, d] = (\<Sum>w<W. \<Sum>h<H. tget ?u [b, h, w, d])"
      using that by (simp add: tget_tabulate valid_index2)
    also have "\<dots> = (\<Sum>h<H. \<Sum>w<W. tget ?u [b, h, w, d])" by (rule sum.swap)
    finally show ?thesis .
  qed
  moreover have "shape ?u = [B, H, W, output_dim L]" by (simp add: cbp_of_def s1)
  ultimately show ?thesis using P U by simp
qed

theorem sum_pool_is_spatial_sum_witness:
  "\<exists>pooled unpooled.
     forward (example_layer\<lparr>sum_pool := True\<rparr>) example_bottom1 example_bottom2 = Inr pooled \<and>
     forward (example_layer\<lparr>sum_pool := False\<rparr>) example_bottom1 example_bottom2 = Inr unpooled \<and>
     shape pooled = [1, 4] \<and> shape unpooled = [1, 2, 1, 4] \<and>
     tget pooled [0, 3] = tget unpooled [0, 0, 0, 3] + tget unpooled [0, 1, 0, 3]"
proof -
  obtain p u where
    "forward (example_layer\<lparr>sum_pool := True\<rparr>) example_bottom1 example_bottom2 = Inr p"
    "forward (example_layer\<lparr>sum_pool := False\<rparr>) example_bottom1 example_bottom2 = Inr u"
    "shape p = [1, output_dim example_layer]"
    "shape u = [1, 2, 1, output_dim example_layer]"
    and S: "\<forall>b<1. \<forall>d<output_dim example_layer.
              tget p [b, d] = (\<Sum>h<2. \<Sum>w<1. tget u [b, h, w, d])"
    using sum_pool_is_spatial_sum[OF example_valid_layer example_valid_inputs] by blast
  moreover have "output_dim example_layer = 4" by (simp add: example_layer_def)
  moreover have "tget p [0, 3] = tget u [0, 0, 0, 3] + tget u [0, 1, 0, 3]"
    using S by (simp add: example_layer_def eval_nat_numeral)
  ultimately show ?thesis by simp
qed

section \<open>Locations are independent\<close>

text \<open>
  Claim C8. With \<open>sum_pool\<close> unset, the output at the location \<open>(b, h, w)\<close> depends only
  on the channel vectors \<open>bottom1[b, :, h, w]\<close> and \<open>bottom2[b, :, h, w]\<close>: two valid
  pairs of inputs that agree at \<open>(b, h, w)\<close> give outputs that agree at \<open>(b, h, w)\<close>,
  whatever the values (and the extents) elsewhere.
\<close>

theorem forward_location_independent:
  assumes "valid_layer L" and "\<not> sum_pool L"
    and "valid_inputs L x1 x2 B H W" and "valid_inputs L y1 y2 B' H' W'"
    and "b < B" "b < B'" "h < H" "h < H'" "w < W" "w < W'"
    and "\<forall>c<input_dim1 L. tget x1 [b, c, h, w] = tget y1 [b, c, h, w]"
    and "\<forall>c<input_dim2 L. tget x2 [b, c, h, w] = tget y2 [b, c, h, w]"
  shows "\<exists>ox oy. forward L x1 x2 = Inr ox \<and> forward L y1 y2 = Inr oy \<and>
           (\<forall>d<output_dim L. tget ox [b, h, w, d] = tget oy [b, h, w, d])"
proof -
  have sx1: "shape x1 = [B, input_dim1 L, H, W]" and sx2: "shape x2 = [B, input_dim2 L, H, W]"
    using assms(3) by (simp_all add: valid_inputs_def)
  have sy1: "shape y1 = [B', input_dim1 L, H', W']" and sy2: "shape y2 = [B', input_dim2 L, H', W']"
    using assms(4) by (simp_all add: valid_inputs_def)
  have c1: "chan x1 b h w = chan y1 b h w"
    using assms(11) by (simp add: chan_def sx1 sy1)
  have c2: "chan x2 b h w = chan y2 b h w"
    using assms(12) by (simp add: chan_def sx2 sy2)
  have "tget (cbp_of L x1 x2) [b, h, w, d] = tget (cbp_of L y1 y2) [b, h, w, d]"
    if "d < output_dim L" for d
    using that assms(5-10) by (simp add: tget_cbp_of[OF sx1] tget_cbp_of[OF sy1] c1 c2)
  then show ?thesis
    using forward_cbp_of[OF assms(1,3)] forward_cbp_of[OF assms(1,4)] assms(2) by simp
qed

theorem forward_location_independent_witness:
  "\<exists>ox oy. forward example_layer example_bottom1 example_bottom2 = Inr ox \<and>
     forward example_layer example_bottom1' example_bottom2' = Inr oy \<and>
     tget ox [0, 0, 0, 0] = tget oy [0, 0, 0, 0] \<and> tget ox [0, 0, 0, 1] = tget oy [0, 0, 0, 1] \<and>
     tget ox [0, 0, 0, 2] = tget oy [0, 0, 0, 2] \<and> tget ox [0, 0, 0, 3] = tget oy [0, 0, 0, 3]"
proof -
  have I': "valid_inputs example_layer example_bottom1' example_bottom2' 1 2 1"
    by (simp add: valid_inputs_def example_layer_def example_bottom1'_def example_bottom2'_def
        wf_tensor_def)
  have np: "\<not> sum_pool example_layer" by (simp add: example_layer_def)
  have a1: "\<forall>c<input_dim1 example_layer.
              tget example_bottom1 [0, c, 0, 0] = tget example_bottom1' [0, c, 0, 0]"
    by (simp add: example_layer_def example_bottom1_def example_bottom1'_def tget_def
          less_Suc_eq eval_nat_numeral)
  have a2: "\<forall>c<input_dim2 example_layer.
              tget example_bottom2 [0, c, 0, 0] = tget example_bottom2' [0, c, 0, 0]"
    by (simp add: example_layer_def example_bottom2_def example_bottom2'_def tget_def)
  obtain ox oy where "forward example_layer example_bottom1 example_bottom2 = Inr ox"
    "forward example_layer example_bottom1' example_bottom2' = Inr oy"
    and E: "\<forall>d<output_dim example_layer. tget ox [0, 0, 0, d] = tget oy [0, 0, 0, d]"
    using forward_location_independent[OF example_valid_layer np example_valid_inputs I',
        of 0 0 0] a1 a2 by auto
  moreover have "output_dim example_layer = 4" by (simp add: example_layer_def)
  ultimately show ?thesis by simp
qed

section \<open>The sketch matrix\<close>

lemma filter_upt_eq:
  "filter (\<lambda>k. k = i \<and> P k) [0..<n] = (if i < n \<and> P i then [i] else [])"
  by (induction n) auto

lemma sparse_entry:
  assumes "length vals = n" "i < n"
  shows "sum_list (map snd (filter (\<lambda>p. fst p = (i, j))
           (zip (map (\<lambda>k. (k, g k)) [0..<n]) vals)))
         = (if j = g i then vals ! i else 0)"
proof -
  have z: "zip (map (\<lambda>k. (k, g k)) [0..<n]) vals = map (\<lambda>k. ((k, g k), vals ! k)) [0..<n]"
    using assms(1) by (intro nth_equalityI) simp_all
  have "filter (\<lambda>p. fst p = (i, j)) (map (\<lambda>k. ((k, g k), vals ! k)) [0..<n])
        = map (\<lambda>k. ((k, g k), vals ! k)) (filter (\<lambda>k. k = i \<and> g k = j) [0..<n])"
    by (simp add: filter_map comp_def)
  then show ?thesis using assms(2) by (auto simp: z filter_upt_eq)
qed

text \<open>
  Claim C6. Every sketch matrix that \<open>generate_sketch_matrix\<close> produces from a valid pair
  (bucket indices in \<open>[0, output_dim)\<close>, signs \<open>+1\<close> or \<open>-1\<close>, equal lengths) is an
  \<open>[input_dim, output_dim]\<close> matrix in which, in every row \<open>i\<close>, the entry at column
  \<open>bucket_index[i]\<close> is \<open>sign[i]\<close> and every other entry is zero.
\<close>

theorem generate_sketch_matrix_rows:
  assumes "length rand_h = length rand_s"
    and "\<forall>x\<in>set rand_h. 0 \<le> sint x \<and> sint x < int D"
    and "\<forall>v\<in>set rand_s. v = 1 \<or> v = - 1"
  shows "\<exists>M. generate_sketch_matrix (NumpyArray rand_h) (NumpyArray rand_s) D = Inr M \<and>
           wf_tensor M \<and> shape M = [length rand_h, D] \<and>
           (\<forall>i<length rand_h.
              nat (sint (rand_h ! i)) < D \<and> (rand_s ! i = 1 \<or> rand_s ! i = - 1) \<and>
              (\<forall>j<D. tget M [i, j] = (if j = nat (sint (rand_h ! i)) then rand_s ! i else 0)))"
proof -
  let ?n = "length rand_h"
  let ?ix = "map (\<lambda>i. (i, nat (sint (rand_h ! i)))) [0..<?n]"
  let ?M = "sparse_to_dense ?ix rand_s ?n D"
  have ok: "list_all (\<lambda>x. 0 \<le> sint x) rand_h \<and> list_all (\<lambda>x. sint x < int D) rand_h"
    using assms(2) by (simp add: list_all_iff)
  have G: "generate_sketch_matrix (NumpyArray rand_h) (NumpyArray rand_s) D = Inr ?M"
    using assms(1) ok by (simp add: generate_sketch_matrix_def Let_def)
  have rows: "nat (sint (rand_h ! i)) < D \<and> (rand_s ! i = 1 \<or> rand_s ! i = - 1) \<and>
              (\<forall>j<D. tget ?M [i, j] = (if j = nat (sint (rand_h ! i)) then rand_s ! i else 0))"
    if i: "i < ?n" for i
  proof -
    have "rand_h ! i \<in> set rand_h" using i by simp
    then have h: "nat (sint (rand_h ! i)) < D" using assms(2) by fastforce
    have "rand_s ! i \<in> set rand_s" using i assms(1) by simp
    then have s: "rand_s ! i = 1 \<or> rand_s ! i = - 1" using assms(3) by blast
    have "tget ?M [i, j] = (if j = nat (sint (rand_h ! i)) then rand_s ! i else 0)"
      if "j < D" for j
      using that i sparse_entry[of rand_s ?n i j "\<lambda>k. nat (sint (rand_h ! k))"] assms(1)
      by (simp add: sparse_to_dense_def tget_tabulate valid_index2)
    then show ?thesis using h s by blast
  qed
  have "wf_tensor ?M" and "shape ?M = [?n, D]" by (simp_all add: sparse_to_dense_def)
  then show ?thesis using G rows by blast
qed

theorem generate_sketch_matrix_rows_witness:
  "\<exists>M. generate_sketch_matrix (NumpyArray [2, 0]) (NumpyArray [1, - 1]) 3 = Inr M \<and>
     wf_tensor M \<and> shape M = [2, 3] \<and>
     tget M [0, 0] = 0 \<and> tget M [0, 1] = 0 \<and> tget M [0, 2] = 1 \<and>
     tget M [1, 0] = - 1 \<and> tget M [1, 1] = 0 \<and> tget M [1, 2] = 0"
proof -
  have "\<exists>M. generate_sketch_matrix (NumpyArray [2, 0]) (NumpyArray [1, - 1]) 3 = Inr M \<and>
           wf_tensor M \<and> shape M = [length [2, 0 :: 64 word], 3] \<and>
           (\<forall>i<length [2, 0 :: 64 word].
              nat (sint ([2, 0 :: 64 word] ! i)) < 3 \<and>
              ([1, - 1 :: real] ! i = 1 \<or> [1, - 1 :: real] ! i = - 1) \<and>
              (\<forall>j<3. tget M [i, j]
                 = (if j = nat (sint ([2, 0 :: 64 word] ! i)) then [1, - 1] ! i else 0)))"
    by (rule generate_sketch_matrix_rows) simp_all
  then obtain M where G: "generate_sketch_matrix (NumpyArray [2, 0]) (NumpyArray [1, - 1]) 3 = Inr M"
    "wf_tensor M" "shape M = [2, 3]"
    and R: "\<forall>i<2. \<forall>j<3. tget M [i, j]
              = (if j = nat (sint ([2, 0 :: 64 word] ! i)) then [1, - 1] ! i else 0)"
    by auto
  have "tget M [0, 0] = 0" "tget M [0, 1] = 0" "tget M [0, 2] = 1"
    "tget M [1, 0] = - 1" "tget M [1, 1] = 0" "tget M [1, 2] = 0"
    using R by simp_all
  then show ?thesis using G by simp
qed

section \<open>Construction\<close>

lemma upt4: "[0..<4] = [0, 1, 2, 3]"
  by (simp add: upt_rec)

lemma generate_sketch_matrix_error:
  "generate_sketch_matrix (NumpyArray h) (NumpyArray s) D = Inl e \<Longrightarrow> e = AssertionError"
  by (auto simp: generate_sketch_matrix_def Let_def split: if_splits)

text \<open>A layer built from supplied sequences of the lengths \<open>input_dim1\<close> and
  \<open>input_dim2\<close>, with bucket indices in range and positive dimensions, is a valid
  layer.\<close>

lemma init_explicit_valid:
  assumes "length h1 = d1" "length s1 = d1" "length h2 = d2" "length s2 = d2"
    and "0 < d1" "0 < d2" "0 < D"
    and "\<forall>x\<in>set h1. 0 \<le> sint x \<and> sint x < int D"
    and "\<forall>x\<in>set h2. 0 \<le> sint x \<and> sint x < int D"
  shows "\<exists>L. fst (init R d1 d2 D p (Some h1) (Some s1) (Some h2) (Some s2) g) = Inr L \<and>
           valid_layer L \<and> sum_pool L = p \<and>
           input_dim1 L = d1 \<and> input_dim2 L = d2 \<and> output_dim L = D"
  using assms
  by (simp add: init_def default_rand_h_def default_rand_s_def generate_sketch_matrix_def
        Let_def list_all_iff valid_layer_def sparse_to_dense_def)

text \<open>The constructor accepts a sign that is neither \<open>+1\<close> nor \<open>-1\<close>, an output
  dimension of zero, and input dimensions of zero beside sequences of length one: no check
  of the source looks at them.\<close>

theorem construction_accepts_bad_sign:
  "generate_sketch_matrix (NumpyArray [0]) (NumpyArray [2]) 1
     = Inr \<lparr>shape = [1, 1], data = [2]\<rparr> \<and>
   generate_sketch_matrix (NumpyArray []) (NumpyArray []) 0 = Inr \<lparr>shape = [0, 0], data = []\<rparr> \<and>
   fst (init counter_random 0 0 1 True (Some [0]) (Some [2]) (Some [0]) (Some [1]) 0)
     = Inr \<lparr>input_dim1 = 0, input_dim2 = 0, output_dim = 1, sum_pool = True,
            sparse_sketch_matrix1 = \<lparr>shape = [1, 1], data = [2]\<rparr>,
            sparse_sketch_matrix2 = \<lparr>shape = [1, 1], data = [1]\<rparr>\<rparr>"
  by (simp add: generate_sketch_matrix_def sparse_to_dense_def tabulate_def init_def
        default_rand_h_def default_rand_s_def)

text \<open>
  Claim C3, as the code has it. Sketch-matrix generation on supplied (numpy) sequences
  fails with the assertion error whenever the bucket indices and the signs have different
  lengths, or a bucket index lies outside \<open>[0, output_dim)\<close>; the constructor called with
  such a pair, for either stream, fails with the same error. (The values of the signs and
  the positivity of the dimensions are not checked.)
\<close>

theorem construction_rejects_malformed_spec:
  assumes "length rand_h \<noteq> length rand_s \<or> (\<exists>x\<in>set rand_h. sint x < 0 \<or> int D \<le> sint x)"
  shows "generate_sketch_matrix (NumpyArray rand_h) (NumpyArray rand_s) D = Inl AssertionError \<and>
         fst (init R d1 d2 D p (Some rand_h) (Some rand_s) h2 s2 g) = Inl AssertionError \<and>
         fst (init R d1 d2 D p (Some h1) (Some s1) (Some rand_h) (Some rand_s) g)
           = Inl AssertionError"
proof -
  have G: "generate_sketch_matrix (NumpyArray rand_h) (NumpyArray rand_s) D = Inl AssertionError"
    using assms by (auto simp: generate_sketch_matrix_def list_all_iff not_less)
  have A: "fst (init R d1 d2 D p (Some rand_h) (Some rand_s) h2 s2 g) = Inl AssertionError"
    by (simp add: init_def default_rand_h_def default_rand_s_def G)
  have B: "fst (init R d1 d2 D p (Some h1) (Some s1) (Some rand_h) (Some rand_s) g)
           = Inl AssertionError"
  proof (cases "generate_sketch_matrix (NumpyArray h1) (NumpyArray s1) D")
    case (Inl e)
    then show ?thesis
      using generate_sketch_matrix_error[OF Inl]
      by (simp add: init_def default_rand_h_def default_rand_s_def)
  next
    case (Inr m)
    then show ?thesis by (simp add: init_def default_rand_h_def default_rand_s_def G)
  qed
  show ?thesis using G A B by simp
qed

theorem construction_rejects_malformed_spec_witness:
  "generate_sketch_matrix (NumpyArray [0, 3]) (NumpyArray [1, - 1]) 3 = Inl AssertionError \<and>
   generate_sketch_matrix (NumpyArray [0, 1]) (NumpyArray [1]) 3 = Inl AssertionError \<and>
   fst (init counter_random 2 1 3 True (Some [0, 3]) (Some [1, - 1]) None None 0)
     = Inl AssertionError \<and>
   fst (init counter_random 1 2 3 True (Some [0]) (Some [1]) (Some [0, - 1]) (Some [1, 1]) 0)
     = Inl AssertionError"
  using construction_rejects_malformed_spec[of "[0, 3]" "[1, - 1]" 3 counter_random 2 1 True None None 0 "[]" "[]"]
    construction_rejects_malformed_spec[of "[0, 1]" "[1]" 3 counter_random 2 1 True None None 0 "[]" "[]"]
    construction_rejects_malformed_spec[of "[0, - 1]" "[1, 1]" 3 counter_random 1 2 True None None 0 "[0]" "[1]"]
  by simp

section \<open>The checks of forward\<close>

lemma unit_valid_layer: "valid_layer unit_layer"
  by (simp add: valid_layer_def unit_layer_def wf_tensor_def)

text \<open>Inputs whose spatial sizes disagree, \<open>[1, 1, 1, 2]\<close> against \<open>[1, 1, 2, 1]\<close>,
  are not rejected: both flatten to two rows, and \<open>forward\<close> returns an output.\<close>

theorem forward_accepts_spatial_mismatch:
  "shape wide_bottom = [1, 1, 1, 2] \<and> shape tall_bottom = [1, 1, 2, 1] \<and>
   wf_tensor wide_bottom \<and> wf_tensor tall_bottom \<and>
   forward unit_layer wide_bottom tall_bottom
     = Inr ((cbp_rows unit_layer wide_bottom tall_bottom 2)\<lparr>shape := [1, 1, 2, 4]\<rparr>)"
  using forward_rows[OF unit_valid_layer, of wide_bottom 1 1 2 tall_bottom 1 2 1]
  by (simp add: wide_bottom_def tall_bottom_def unit_layer_def wf_tensor_def)

text \<open>
  Claim C2, as the code has it. \<open>forward\<close> fails with the assertion error, before any
  computation, whenever the channel size of \<open>bottom1\<close> differs from \<open>input_dim1\<close> or the
  channel size of \<open>bottom2\<close> differs from \<open>input_dim2\<close> (the inputs having a channel
  axis); no output is produced then. (The batch and spatial sizes of the two inputs are not
  compared.)
\<close>

theorem forward_rejects_channel_mismatch:
  assumes "2 \<le> length (shape bottom1)" and "2 \<le> length (shape bottom2)"
    and "shape bottom1 ! 1 \<noteq> input_dim1 L \<or> shape bottom2 ! 1 \<noteq> input_dim2 L"
  shows "forward L bottom1 bottom2 = Inl AssertionError"
  using assms by (auto simp: forward_def)

theorem forward_rejects_channel_mismatch_witness:
  "forward unit_layer \<lparr>shape = [1, 2, 1, 1], data = [1, 2]\<rparr> \<lparr>shape = [1, 1, 1, 1], data = [1]\<rparr>
     = Inl AssertionError \<and>
   forward unit_layer \<lparr>shape = [1, 1, 1, 1], data = [1]\<rparr> \<lparr>shape = [1, 3, 1, 1], data = [1, 2, 3]\<rparr>
     = Inl AssertionError"
  using forward_rejects_channel_mismatch[of "\<lparr>shape = [1, 2, 1, 1], data = [1, 2]\<rparr>"
      "\<lparr>shape = [1, 1, 1, 1], data = [1]\<rparr>" unit_layer]
    forward_rejects_channel_mismatch[of "\<lparr>shape = [1, 1, 1, 1], data = [1]\<rparr>"
      "\<lparr>shape = [1, 3, 1, 1], data = [1, 2, 3]\<rparr>" unit_layer]
  by (simp add: unit_layer_def)

section \<open>The global random generator\<close>

text \<open>Construction that draws its projections overwrites the state of the global
  generator: from the state 100 and from the state 0 alike it leaves the state 4, the
  state of the seed 3 advanced by one draw.\<close>

theorem construction_reseeds_global_generator:
  "snd (init counter_random 1 1 4 True None None None None 100) = 4 \<and>
   snd (init counter_random 1 1 4 True None None None None 0) = 4"
  by (simp add: init_def default_rand_h_def default_rand_s_def torch_randint_def
        counter_random_def generate_sketch_matrix_def)

text \<open>
  Claim C7, as the code has it. Construction with all four projection sequences supplied
  has no side effect on the global random generator: its state is left as it was. A
  construction that draws a projection sequence reseeds the global generator with a fixed
  seed before the draw, so that the state it leaves does not depend on the state it found:
  so it is when a sequence of the first stream is drawn, and when, the first stream being
  supplied and accepted, a sequence of the second stream is drawn.
\<close>

theorem construction_generator_effect:
  "snd (init R d1 d2 D p (Some a1) (Some b1) (Some a2) (Some b2) g) = g \<and>
   snd (init R d1 d2 D p None s1 h2 s2 g) = snd (init R d1 d2 D p None s1 h2 s2 g') \<and>
   snd (init R d1 d2 D p h1 None h2 s2 g) = snd (init R d1 d2 D p h1 None h2 s2 g') \<and>
   (generate_sketch_matrix (NumpyArray c1) (NumpyArray e1) D = Inr m \<longrightarrow>
      snd (init R d1 d2 D p (Some c1) (Some e1) None s2 g)
        = snd (init R d1 d2 D p (Some c1) (Some e1) None s2 g') \<and>
      snd (init R d1 d2 D p (Some c1) (Some e1) h2 None g)
        = snd (init R d1 d2 D p (Some c1) (Some e1) h2 None g'))"
proof -
  have 1: "snd (init R d1 d2 D p (Some a1) (Some b1) (Some a2) (Some b2) g) = g"
    by (simp add: init_def default_rand_h_def default_rand_s_def split: sum.splits prod.splits)
  have 2: "snd (init R d1 d2 D p None s1 h2 s2 g) = snd (init R d1 d2 D p None s1 h2 s2 g')"
    by (cases s1) (simp_all add: init_def default_rand_h_def default_rand_s_def
          generate_sketch_matrix_def split: sum.splits prod.splits)
  have 3: "snd (init R d1 d2 D p h1 None h2 s2 g) = snd (init R d1 d2 D p h1 None h2 s2 g')"
    by (cases h1) (simp_all add: init_def default_rand_h_def default_rand_s_def
          generate_sketch_matrix_def split: sum.splits prod.splits array.splits)
  have 4: "snd (init R d1 d2 D p (Some c1) (Some e1) None s2 g)
           = snd (init R d1 d2 D p (Some c1) (Some e1) None s2 g')"
    if "generate_sketch_matrix (NumpyArray c1) (NumpyArray e1) D = Inr m"
    using that
    by (cases s2) (simp_all add: init_def default_rand_h_def default_rand_s_def
          split: sum.splits prod.splits)
  have 5: "snd (init R d1 d2 D p (Some c1) (Some e1) h2 None g)
           = snd (init R d1 d2 D p (Some c1) (Some e1) h2 None g')"
    if "generate_sketch_matrix (NumpyArray c1) (NumpyArray e1) D = Inr m"
    using that
    by (cases h2) (simp_all add: init_def default_rand_h_def default_rand_s_def
          split: sum.splits prod.splits)
  show ?thesis using 1 2 3 4 5 by blast
qed

theorem construction_generator_effect_witness:
  "snd (init counter_random 1 1 4 True (Some [0]) (Some [1]) (Some [1]) (Some [1]) 100) = 100 \<and>
   snd (init counter_random 1 1 4 True None None None None 100)
     = snd (init counter_random 1 1 4 True None None None None 0) \<and>
   snd (init counter_random 1 1 4 True (Some [0]) (Some [1]) None None 100)
     = snd (init counter_random 1 1 4 True (Some [0]) (Some [1]) None None 0)"
proof -
  have m: "generate_sketch_matrix (NumpyArray [0]) (NumpyArray [1]) 4
           = Inr \<lparr>shape = [1, 4], data = [1, 0, 0, 0]\<rparr>"
    by (simp add: generate_sketch_matrix_def sparse_to_dense_def tabulate_def upt4)
  show ?thesis
    using construction_generator_effect[where R = counter_random and ?d1.0 = 1 and ?d2.0 = 1
        and D = 4 and p = True and ?a1.0 = "[0]" and ?b1.0 = "[1]" and ?a2.0 = "[1]"
        and ?b2.0 = "[1]" and g = 100 and g' = 0 and ?s1.0 = None and ?h2.0 = None
        and ?s2.0 = None and ?c1.0 = "[0]" and ?e1.0 = "[1]"
        and m = "\<lparr>shape = [1, 4], data = [1, 0, 0, 0]\<rparr>"] m
    by simp
qed

text \<open>
  Claim C9 at a concrete input. The claim: two instances built with the same dimensions
  and the same, or both default, projection sequences hold identical sketch matrices, and
  \<open>forward\<close> on them is deterministic. In the code a construction that leaves a
  projection sequence to its default hands a torch tensor to \<open>generate_sketch_matrix\<close>,
  whose first lines call \<open>astype\<close> on it: the construction raises, whatever the
  dimensions and the state of the generator, and no instance is built.
\<close>

theorem default_construction_fails:
  "(0 < D \<longrightarrow> fst (init R d1 d2 D p None s1 h2 s2 g) = Inl AttributeError) \<and>
   fst (init R d1 d2 D p (Some h1) None h2 s2 g) = Inl AttributeError \<and>
   (h2 = None \<or> s2 = None \<longrightarrow> isl (fst (init R d1 d2 D p (Some c1) (Some e1) h2 s2 g)))"
proof -
  have 1: "fst (init R d1 d2 D p None s1 h2 s2 g) = Inl AttributeError" if "0 < D"
    using that
    by (cases s1) (simp_all add: init_def default_rand_h_def default_rand_s_def
          torch_randint_def generate_sketch_matrix_def)
  have 2: "fst (init R d1 d2 D p (Some h1) None h2 s2 g) = Inl AttributeError"
    by (simp add: init_def default_rand_h_def default_rand_s_def
          torch_randint_def generate_sketch_matrix_def)
  have 3: "isl (fst (init R d1 d2 D p (Some c1) (Some e1) h2 s2 g))" if "h2 = None \<or> s2 = None"
    using that
    by (cases h2; cases s2)
       (auto simp: init_def default_rand_h_def default_rand_s_def torch_randint_def
          generate_sketch_matrix_def split: sum.splits prod.splits if_splits)
  show ?thesis using 1 2 3 by blast
qed

theorem default_construction_fails_witness:
  "fst (init counter_random 2 1 4 False None None None None 0) = Inl AttributeError \<and>
   fst (init counter_random 2 1 4 False None None None None 100) = Inl AttributeError \<and>
   isl (fst (init counter_random 1 1 4 False (Some [0]) (Some [1]) None None 0))"
  using default_construction_fails[where D = 4 and R = counter_random and ?d1.0 = 2
        and ?d2.0 = 1 and p = False and ?s1.0 = None and ?h2.0 = None and ?s2.0 = None and g = 0]
    default_construction_fails[where D = 4 and R = counter_random and ?d1.0 = 2
        and ?d2.0 = 1 and p = False and ?s1.0 = None and ?h2.0 = None and ?s2.0 = None and g = 100]
    default_construction_fails[where D = 4 and R = counter_random and ?d1.0 = 1
        and ?d2.0 = 1 and p = False and ?h2.0 = None and ?s2.0 = None and g = 0
        and ?c1.0 = "[0]" and ?e1.0 = "[1]"]
  by simp

section \<open>The product in the frequency domain\<close>

lemma cis_quarter: "cis (2 * pi * real j * real k / 4) = \<i> ^ (j * k)"
proof -
  have "cis (2 * pi * real j * real k / 4) = cis (real (j * k) * (pi / 2))"
    by (simp add: field_simps)
  also have "\<dots> = cis (pi / 2) ^ (j * k)" by (simp only: DeMoivre)
  finally show ?thesis by simp
qed

lemma cis_quarter_neg: "cis (- (2 * pi * real j * real k / 4)) = (- \<i>) ^ (j * k)"
proof -
  have "cis (- (2 * pi * real j * real k / 4)) = cis (real (j * k) * (- (pi / 2)))"
    by (simp add: field_simps)
  also have "\<dots> = cis (- (pi / 2)) ^ (j * k)" by (simp only: DeMoivre)
  also have "cis (- (pi / 2)) = - \<i>"
    by (simp add: complex_eq_iff)
  finally show ?thesis by simp
qed

lemma dft_len4:
  assumes "length zs = 4"
  shows "dft zs = map (\<lambda>k. \<Sum>j<4. zs ! j * (- \<i>) ^ (j * k)) [0..<4]"
  unfolding dft_def assms by (simp only: of_nat_numeral cis_quarter_neg)

lemma idft_len4:
  assumes "length zs = 4"
  shows "idft zs = map (\<lambda>j. (\<Sum>k<4. zs ! k * \<i> ^ (j * k)) / 4) [0..<4]"
  unfolding idft_def assms by (simp only: of_nat_numeral cis_quarter)

lemma sum4: "(\<Sum>j<4. f j) = f 0 + f 1 + f 2 + f (3::nat)" for f :: "nat \<Rightarrow> 'a::comm_monoid_add"
  by (simp add: eval_nat_numeral lessThan_Suc ac_simps)

lemma dft4:
  "dft [a, b, c, d] = [a + b + c + d, a - \<i> * b - c + \<i> * d, a - b + c - d, a + \<i> * b - c - \<i> * d]"
  by (simp add: dft_len4 upt4 sum4) (simp add: eval_nat_numeral algebra_simps)

lemma idft4:
  "idft [a, b, c, d] = [(a + b + c + d) / 4, (a + \<i> * b - c - \<i> * d) / 4,
                        (a - b + c - d) / 4, (a - \<i> * b - c + \<i> * d) / 4]"
  by (simp add: idft_len4 upt4 sum4) (simp add: eval_nat_numeral algebra_simps)

lemma unit_valid_inputs: "valid_inputs unit_layer unit_bottom unit_bottom 1 1 1"
  by (simp add: valid_inputs_def unit_layer_def unit_bottom_def wf_tensor_def)

lemma unit_sketches:
  "sketch_vec (sparse_sketch_matrix1 unit_layer) [1] = [1, 0, 0, 0]"
  "sketch_vec (sparse_sketch_matrix2 unit_layer) [1] = [0, 1, 0, 0]"
  by (simp_all add: sketch_vec_def unit_layer_def tget_def upt4)

lemma unit_cbp_vec: "cbp_vec unit_layer [1] [1] = [0, 1 / 2, 0, 1 / 2]"
  by (simp add: cbp_vec_def unit_sketches dft4 freq_product_def idft4)

text \<open>
  Claim C1 at a concrete input. The claim: the product of the two transforms is the
  complex product, with imaginary part \<open>r1 * i2 + i1 * r2\<close>, so that the transform, the
  product and the inverse transform give the circular convolution of the two sketches.
  The code takes \<open>r1 * r2 + i1 * i2\<close> for the imaginary part. For the sketches
  \<open>[1, 0, 0, 0]\<close> and \<open>[0, 1, 0, 0]\<close> the output of \<open>forward\<close> is
  \<open>[0, 1/2, 0, 1/2]\<close>; their circular convolution is \<open>[0, 1, 0, 0]\<close>, which is also
  what the complex product of the transforms gives.
\<close>

theorem forward_unit_not_circular_convolution:
  "forward unit_layer unit_bottom unit_bottom
     = Inr \<lparr>shape = [1, 1, 1, 4], data = [0, 1 / 2, 0, 1 / 2]\<rparr> \<and>
   sketch_vec (sparse_sketch_matrix1 unit_layer) [1] = [1, 0, 0, 0] \<and>
   sketch_vec (sparse_sketch_matrix2 unit_layer) [1] = [0, 1, 0, 0] \<and>
   circular_convolution [1, 0, 0, 0] [0, 1, 0, 0] = [0, 1, 0, 0] \<and>
   map Re (idft (map2 (*) (dft (map complex_of_real [1, 0, 0, 0]))
                          (dft (map complex_of_real [0, 1, 0, 0])))) = [0, 1, 0, 0]"
proof -
  have D: "output_dim unit_layer = 4" by (simp add: unit_layer_def)
  have r: "row_chan unit_bottom 0 = [1]"
    by (simp add: row_chan_def chan_def unit_bottom_def tget_def)
  have "cbp_rows unit_layer unit_bottom unit_bottom 1
        = \<lparr>shape = [1, 4], data = [0, 1 / 2, 0, 1 / 2]\<rparr>"
    by (simp add: cbp_rows_def D tabulate_def upt4 r unit_cbp_vec)
  then have "forward unit_layer unit_bottom unit_bottom
     = Inr \<lparr>shape = [1, 1, 1, 4], data = [0, 1 / 2, 0, 1 / 2]\<rparr>"
    using forward_valid[OF unit_valid_layer unit_valid_inputs]
    by (simp add: D) (simp add: unit_layer_def)
  moreover have "circular_convolution [1, 0, 0, 0] [0, 1, 0, 0] = [0, 1, 0, (0::real)]"
    by (simp add: circular_convolution_def upt4 sum4)
  moreover have "map Re (idft (map2 (*) (dft (map complex_of_real [1, 0, 0, 0]))
                          (dft (map complex_of_real [0, 1, 0, 0])))) = [0, 1, 0, 0]"
    by (simp add: dft4 idft4)
  ultimately show ?thesis using unit_sketches by simp
qed

section \<open>Bilinearity\<close>

lemma length_lin [simp]: "length (lin c xs ys) = min (length xs) (length ys)"
  by (simp add: lin_def)

lemma length_clin [simp]: "length (clin c xs ys) = min (length xs) (length ys)"
  by (simp add: clin_def)

lemma nth_lin: "i < length xs \<Longrightarrow> i < length ys \<Longrightarrow> lin c xs ys ! i = c * xs ! i + ys ! i"
  by (simp add: lin_def)

lemma nth_clin:
  "i < length xs \<Longrightarrow> i < length ys \<Longrightarrow> clin c xs ys ! i = complex_of_real c * xs ! i + ys ! i"
  by (simp add: clin_def)

lemma shape_tadd_tscale [simp]: "shape (tadd (tscale c x) y) = shape x"
  by (simp add: tadd_def tscale_def)

lemma wf_tadd_tscale:
  "wf_tensor x \<Longrightarrow> wf_tensor y \<Longrightarrow> shape x = shape y \<Longrightarrow> wf_tensor (tadd (tscale c x) y)"
  by (simp add: wf_tensor_def tadd_def tscale_def)

lemma tget_tadd_tscale:
  assumes "wf_tensor x" "wf_tensor y" "shape x = shape y" "valid_index (shape x) idx"
  shows "tget (tadd (tscale c x) y) idx = c * tget x idx + tget y idx"
proof -
  have "ravel (shape x) idx < prod_list (shape x)"
    using assms(4) by (simp add: valid_index_def ravel_less)
  then show ?thesis
    using assms(1-3) by (simp add: tget_def tadd_def tscale_def wf_tensor_def)
qed

lemma tabulate_lin:
  "tabulate s (\<lambda>idx. c * f idx + g idx) = tadd (tscale c (tabulate s f)) (tabulate s g)"
proof -
  have "map2 (+) (map (\<lambda>v. c * v) (map F ps)) (map G ps) = map (\<lambda>p. c * F p + G p) ps"
    for F G :: "nat \<Rightarrow> real" and ps
    by (induction ps) simp_all
  then show ?thesis by (simp add: tabulate_def tadd_def tscale_def)
qed

lemma sketch_vec_lin:
  assumes "length u = length u'"
  shows "sketch_vec M (lin c u u') = lin c (sketch_vec M u) (sketch_vec M u')"
proof (rule nth_equalityI)
  show "length (sketch_vec M (lin c u u')) = length (lin c (sketch_vec M u) (sketch_vec M u'))"
    by simp
  fix k assume "k < length (sketch_vec M (lin c u u'))"
  then have k: "k < shape M ! 1" by simp
  have "(\<Sum>j<length u. lin c u u' ! j * tget M [j, k])
        = (\<Sum>j<length u. c * (u ! j * tget M [j, k]) + u' ! j * tget M [j, k])"
    by (rule sum.cong) (simp_all add: nth_lin assms algebra_simps)
  also have "\<dots> = c * (\<Sum>j<length u. u ! j * tget M [j, k]) + (\<Sum>j<length u. u' ! j * tget M [j, k])"
    by (simp add: sum.distrib sum_distrib_left)
  finally show "sketch_vec M (lin c u u') ! k = lin c (sketch_vec M u) (sketch_vec M u') ! k"
    using k assms by (simp add: sketch_vec_def nth_lin)
qed

lemma map_of_real_lin:
  "map complex_of_real (lin c xs ys) = clin c (map complex_of_real xs) (map complex_of_real ys)"
  by (simp add: lin_def clin_def zip_map_map map_zip_map map_zip_map2 split_def)

lemma dft_clin:
  assumes "length xs = length ys"
  shows "dft (clin c xs ys) = clin c (dft xs) (dft ys)"
proof (rule nth_equalityI)
  show "length (dft (clin c xs ys)) = length (clin c (dft xs) (dft ys))" using assms by simp
  fix k assume "k < length (dft (clin c xs ys))"
  then have k: "k < length xs" using assms by simp
  let ?w = "\<lambda>j. cis (- (2 * pi * real j * real k / real (length xs)))"
  have "(\<Sum>j<length xs. clin c xs ys ! j * ?w j)
        = (\<Sum>j<length xs. complex_of_real c * (xs ! j * ?w j) + ys ! j * ?w j)"
    by (rule sum.cong) (simp_all add: nth_clin assms[symmetric] algebra_simps)
  also have "\<dots> = complex_of_real c * (\<Sum>j<length xs. xs ! j * ?w j) + (\<Sum>j<length xs. ys ! j * ?w j)"
    by (simp add: sum.distrib sum_distrib_left)
  finally show "dft (clin c xs ys) ! k = clin c (dft xs) (dft ys) ! k"
    using k assms by (simp add: dft_def nth_clin)
qed

lemma idft_clin:
  assumes "length xs = length ys"
  shows "idft (clin c xs ys) = clin c (idft xs) (idft ys)"
proof (rule nth_equalityI)
  show "length (idft (clin c xs ys)) = length (clin c (idft xs) (idft ys))" using assms by simp
  fix k assume "k < length (idft (clin c xs ys))"
  then have k: "k < length xs" using assms by simp
  let ?w = "\<lambda>j. cis (2 * pi * real k * real j / real (length xs))"
  have "(\<Sum>j<length xs. clin c xs ys ! j * ?w j)
        = (\<Sum>j<length xs. complex_of_real c * (xs ! j * ?w j) + ys ! j * ?w j)"
    by (rule sum.cong) (simp_all add: nth_clin assms[symmetric] algebra_simps)
  also have "\<dots> = complex_of_real c * (\<Sum>j<length xs. xs ! j * ?w j) + (\<Sum>j<length xs. ys ! j * ?w j)"
    by (simp add: sum.distrib sum_distrib_left)
  finally show "idft (clin c xs ys) ! k = clin c (idft xs) (idft ys) ! k"
    using k assms by (simp add: idft_def nth_clin add_divide_distrib)
qed

lemma length_freq_product [simp]: "length (freq_product F G) = min (length F) (length G)"
  by (simp add: freq_product_def)

lemma nth_freq_product:
  "i < length F \<Longrightarrow> i < length G \<Longrightarrow>
   freq_product F G ! i = Complex (Re (F ! i) * Re (G ! i) - Im (F ! i) * Im (G ! i))
                                  (Re (F ! i) * Re (G ! i) + Im (F ! i) * Im (G ! i))"
  by (simp add: freq_product_def)

lemma freq_product_clin_left:
  assumes "length F = length F'" "length F = length G"
  shows "freq_product (clin c F F') G = clin c (freq_product F G) (freq_product F' G)"
proof (rule nth_equalityI)
  show "length (freq_product (clin c F F') G) = length (clin c (freq_product F G) (freq_product F' G))"
    using assms by simp
  fix i assume "i < length (freq_product (clin c F F') G)"
  then have i: "i < length F" "i < length F'" "i < length G" using assms by simp_all
  then show "freq_product (clin c F F') G ! i = clin c (freq_product F G) (freq_product F' G) ! i"
    by (simp add: nth_freq_product nth_clin complex_eq_iff algebra_simps)
qed

lemma freq_product_clin_right:
  assumes "length G = length G'" "length F = length G"
  shows "freq_product F (clin c G G') = clin c (freq_product F G) (freq_product F G')"
proof (rule nth_equalityI)
  show "length (freq_product F (clin c G G')) = length (clin c (freq_product F G) (freq_product F G'))"
    using assms by simp
  fix i assume "i < length (freq_product F (clin c G G'))"
  then have i: "i < length F" "i < length G'" "i < length G" using assms by simp_all
  then show "freq_product F (clin c G G') ! i = clin c (freq_product F G) (freq_product F G') ! i"
    by (simp add: nth_freq_product nth_clin complex_eq_iff algebra_simps)
qed

lemma map_Re_clin:
  "map Re (clin c xs ys) = lin c (map Re xs) (map Re ys)"
  by (simp add: lin_def clin_def zip_map_map map_zip_map map_zip_map2 split_def)

lemma cbp_vec_lin_left:
  assumes "length u = length u'"
    and D: "shape (sparse_sketch_matrix1 L) ! 1 = shape (sparse_sketch_matrix2 L) ! 1"
  shows "cbp_vec L (lin c u u') v = lin c (cbp_vec L u v) (cbp_vec L u' v)"
proof -
  let ?M1 = "sparse_sketch_matrix1 L" and ?M2 = "sparse_sketch_matrix2 L"
  let ?F = "dft (map complex_of_real (sketch_vec ?M1 u))"
  let ?F' = "dft (map complex_of_real (sketch_vec ?M1 u'))"
  let ?G = "dft (map complex_of_real (sketch_vec ?M2 v))"
  have l1: "length ?F = length ?F'" by simp
  have l2: "length ?F = length ?G" using D by simp
  have "dft (map complex_of_real (sketch_vec ?M1 (lin c u u'))) = clin c ?F ?F'"
    by (simp add: sketch_vec_lin[OF assms(1)] map_of_real_lin dft_clin)
  then have "cbp_vec L (lin c u u') v = map Re (idft (freq_product (clin c ?F ?F') ?G))"
    by (simp add: cbp_vec_def)
  also have "\<dots> = map Re (idft (clin c (freq_product ?F ?G) (freq_product ?F' ?G)))"
    by (simp only: freq_product_clin_left[OF l1 l2])
  also have "\<dots> = map Re (clin c (idft (freq_product ?F ?G)) (idft (freq_product ?F' ?G)))"
    using l1 l2 by (subst idft_clin) simp_all
  also have "\<dots> = lin c (cbp_vec L u v) (cbp_vec L u' v)"
    by (simp add: map_Re_clin cbp_vec_def)
  finally show ?thesis .
qed

lemma cbp_vec_lin_right:
  assumes "length v = length v'"
    and D: "shape (sparse_sketch_matrix1 L) ! 1 = shape (sparse_sketch_matrix2 L) ! 1"
  shows "cbp_vec L u (lin c v v') = lin c (cbp_vec L u v) (cbp_vec L u v')"
proof -
  let ?M1 = "sparse_sketch_matrix1 L" and ?M2 = "sparse_sketch_matrix2 L"
  let ?F = "dft (map complex_of_real (sketch_vec ?M1 u))"
  let ?G = "dft (map complex_of_real (sketch_vec ?M2 v))"
  let ?G' = "dft (map complex_of_real (sketch_vec ?M2 v'))"
  have l1: "length ?G = length ?G'" by simp
  have l2: "length ?F = length ?G" using D by simp
  have "dft (map complex_of_real (sketch_vec ?M2 (lin c v v'))) = clin c ?G ?G'"
    by (simp add: sketch_vec_lin[OF assms(1)] map_of_real_lin dft_clin)
  then have "cbp_vec L u (lin c v v') = map Re (idft (freq_product ?F (clin c ?G ?G')))"
    by (simp add: cbp_vec_def)
  also have "\<dots> = map Re (idft (clin c (freq_product ?F ?G) (freq_product ?F ?G')))"
    by (simp only: freq_product_clin_right[OF l1 l2])
  also have "\<dots> = map Re (clin c (idft (freq_product ?F ?G)) (idft (freq_product ?F ?G')))"
    using l1 l2 by (subst idft_clin) simp_all
  also have "\<dots> = lin c (cbp_vec L u v) (cbp_vec L u v')"
    by (simp add: map_Re_clin cbp_vec_def)
  finally show ?thesis .
qed

lemma lin_map: "lin c (map f xs) (map g xs) = map (\<lambda>i. c * f i + g i) xs"
  by (induction xs) (simp_all add: lin_def)

lemma chan_lin:
  assumes "wf_tensor x" "wf_tensor y" "shape x = [B, C, H, W]" "shape y = [B, C, H, W]"
    and "b < B" "h < H" "w < W"
  shows "chan (tadd (tscale c x) y) b h w = lin c (chan x b h w) (chan y b h w)"
proof -
  have "tget (tadd (tscale c x) y) [b, k, h, w] = c * tget x [b, k, h, w] + tget y [b, k, h, w]"
    if "k < C" for k
    using that assms by (intro tget_tadd_tscale) (simp_all add: valid_index4)
  then show ?thesis
    using assms(3,4) by (simp add: chan_def lin_map)
qed

lemma length_cbp_vec:
  "length (cbp_vec L u v)
   = min (shape (sparse_sketch_matrix1 L) ! 1) (shape (sparse_sketch_matrix2 L) ! 1)"
  by (simp add: cbp_vec_def)

lemma cbp_of_lin_left:
  assumes L: "valid_layer L"
    and "wf_tensor x" "wf_tensor y" "shape x = [B, C, H, W]" "shape y = [B, C, H, W]"
  shows "cbp_of L (tadd (tscale c x) y) z = tadd (tscale c (cbp_of L x z)) (cbp_of L y z)"
proof -
  let ?D = "output_dim L"
  have D1: "shape (sparse_sketch_matrix1 L) ! 1 = ?D" and D2: "shape (sparse_sketch_matrix2 L) ! 1 = ?D"
    using L by (simp_all add: valid_layer_def)
  have "cbp_of L (tadd (tscale c x) y) z
        = tabulate [B, H, W, ?D]
            (\<lambda>idx. c * (cbp_vec L (chan x (idx ! 0) (idx ! 1) (idx ! 2))
                                   (chan z (idx ! 0) (idx ! 1) (idx ! 2)) ! (idx ! 3))
                   + cbp_vec L (chan y (idx ! 0) (idx ! 1) (idx ! 2))
                               (chan z (idx ! 0) (idx ! 1) (idx ! 2)) ! (idx ! 3))"
    unfolding cbp_of_def
  proof (simp add: assms(4), rule tabulate_cong)
    fix idx assume "valid_index [B, H, W, ?D] idx"
    then obtain b h w d where idx: "idx = [b, h, w, d]" and b: "b < B" and h: "h < H"
      and w: "w < W" and d: "d < ?D"
      by (auto simp: valid_index4)
    have len: "length (chan x b h w) = length (chan y b h w)"
      by (simp add: chan_def assms(4,5))
    have "cbp_vec L (chan (tadd (tscale c x) y) b h w) (chan z b h w) ! d
          = lin c (cbp_vec L (chan x b h w) (chan z b h w))
                  (cbp_vec L (chan y b h w) (chan z b h w)) ! d"
      by (simp only: chan_lin[OF assms(2-5) b h w] cbp_vec_lin_left[OF len] D1 D2)
    also have "\<dots> = c * (cbp_vec L (chan x b h w) (chan z b h w) ! d)
                      + cbp_vec L (chan y b h w) (chan z b h w) ! d"
      using d D1 D2 by (intro nth_lin) (simp_all add: length_cbp_vec)
    finally show "cbp_vec L (chan (tadd (tscale c x) y) (idx ! 0) (idx ! Suc 0) (idx ! 2))
            (chan z (idx ! 0) (idx ! Suc 0) (idx ! 2)) ! (idx ! 3)
          = c * (cbp_vec L (chan x (idx ! 0) (idx ! Suc 0) (idx ! 2))
                           (chan z (idx ! 0) (idx ! Suc 0) (idx ! 2)) ! (idx ! 3))
            + cbp_vec L (chan y (idx ! 0) (idx ! Suc 0) (idx ! 2))
                        (chan z (idx ! 0) (idx ! Suc 0) (idx ! 2)) ! (idx ! 3)"
      by (simp add: idx)
  qed
  also have "\<dots> = tadd (tscale c (cbp_of L x z)) (cbp_of L y z)"
    by (simp add: tabulate_lin cbp_of_def assms(4,5))
  finally show ?thesis .
qed

lemma cbp_of_lin_right:
  assumes L: "valid_layer L"
    and "wf_tensor x" "wf_tensor y" "shape x = [B, C, H, W]" "shape y = [B, C, H, W]"
    and z: "shape z = [B, C', H, W]"
  shows "cbp_of L z (tadd (tscale c x) y) = tadd (tscale c (cbp_of L z x)) (cbp_of L z y)"
proof -
  let ?D = "output_dim L"
  have D1: "shape (sparse_sketch_matrix1 L) ! 1 = ?D" and D2: "shape (sparse_sketch_matrix2 L) ! 1 = ?D"
    using L by (simp_all add: valid_layer_def)
  have "cbp_of L z (tadd (tscale c x) y)
        = tabulate [B, H, W, ?D]
            (\<lambda>idx. c * (cbp_vec L (chan z (idx ! 0) (idx ! 1) (idx ! 2))
                                   (chan x (idx ! 0) (idx ! 1) (idx ! 2)) ! (idx ! 3))
                   + cbp_vec L (chan z (idx ! 0) (idx ! 1) (idx ! 2))
                               (chan y (idx ! 0) (idx ! 1) (idx ! 2)) ! (idx ! 3))"
    unfolding cbp_of_def
  proof (simp add: z, rule tabulate_cong)
    fix idx assume "valid_index [B, H, W, ?D] idx"
    then obtain b h w d where idx: "idx = [b, h, w, d]" and b: "b < B" and h: "h < H"
      and w: "w < W" and d: "d < ?D"
      by (auto simp: valid_index4)
    have len: "length (chan x b h w) = length (chan y b h w)"
      by (simp add: chan_def assms(4,5))
    have "cbp_vec L (chan z b h w) (chan (tadd (tscale c x) y) b h w) ! d
          = lin c (cbp_vec L (chan z b h w) (chan x b h w))
                  (cbp_vec L (chan z b h w) (chan y b h w)) ! d"
      by (simp only: chan_lin[OF assms(2-5) b h w] cbp_vec_lin_right[OF len] D1 D2)
    also have "\<dots> = c * (cbp_vec L (chan z b h w) (chan x b h w) ! d)
                      + cbp_vec L (chan z b h w) (chan y b h w) ! d"
      using d D1 D2 by (intro nth_lin) (simp_all add: length_cbp_vec)
    finally show "cbp_vec L (chan z (idx ! 0) (idx ! Suc 0) (idx ! 2))
            (chan (tadd (tscale c x) y) (idx ! 0) (idx ! Suc 0) (idx ! 2)) ! (idx ! 3)
          = c * (cbp_vec L (chan z (idx ! 0) (idx ! Suc 0) (idx ! 2))
                           (chan x (idx ! 0) (idx ! Suc 0) (idx ! 2)) ! (idx ! 3))
            + cbp_vec L (chan z (idx ! 0) (idx ! Suc 0) (idx ! 2))
                        (chan y (idx ! 0) (idx ! Suc 0) (idx ! 2)) ! (idx ! 3)"
      by (simp add: idx)
  qed
  also have "\<dots> = tadd (tscale c (cbp_of L z x)) (cbp_of L z y)"
    by (simp add: tabulate_lin cbp_of_def z)
  finally show ?thesis .
qed

lemma pooled_of_lin:
  assumes "wf_tensor u" "wf_tensor v" "shape u = [B, H, W, D]" "shape v = [B, H, W, D]"
  shows "pooled_of B H W D (tadd (tscale c u) v)
         = tadd (tscale c (pooled_of B H W D u)) (pooled_of B H W D v)"
proof -
  have "pooled_of B H W D (tadd (tscale c u) v)
        = tabulate [B, D] (\<lambda>idx. c * (\<Sum>w<W. \<Sum>h<H. tget u [idx ! 0, h, w, idx ! 1])
                                  + (\<Sum>w<W. \<Sum>h<H. tget v [idx ! 0, h, w, idx ! 1]))"
    unfolding pooled_of_def
  proof (rule tabulate_cong)
    fix idx assume "valid_index [B, D] idx"
    then obtain b d where idx: "idx = [b, d]" and b: "b < B" and d: "d < D"
      by (auto simp: valid_index2)
    have e: "tget (tadd (tscale c u) v) [b, h, w, d] = c * tget u [b, h, w, d] + tget v [b, h, w, d]"
      if "h < H" "w < W" for h w
      using that b d assms by (intro tget_tadd_tscale) (simp_all add: valid_index4)
    have "(\<Sum>w<W. \<Sum>h<H. tget (tadd (tscale c u) v) [b, h, w, d])
          = (\<Sum>w<W. \<Sum>h<H. c * tget u [b, h, w, d] + tget v [b, h, w, d])"
      by (intro sum.cong refl) (simp add: e)
    also have "\<dots> = c * (\<Sum>w<W. \<Sum>h<H. tget u [b, h, w, d]) + (\<Sum>w<W. \<Sum>h<H. tget v [b, h, w, d])"
      by (simp add: sum.distrib sum_distrib_left)
    finally show "(\<Sum>w<W. \<Sum>h<H. tget (tadd (tscale c u) v) [idx ! 0, h, w, idx ! 1])
          = c * (\<Sum>w<W. \<Sum>h<H. tget u [idx ! 0, h, w, idx ! 1])
            + (\<Sum>w<W. \<Sum>h<H. tget v [idx ! 0, h, w, idx ! 1])"
      by (simp add: idx)
  qed
  then show ?thesis by (simp add: tabulate_lin pooled_of_def)
qed

lemma forward_pooled_of:
  assumes "valid_layer L" and "valid_inputs L bottom1 bottom2 B H W"
  shows "forward L bottom1 bottom2
         = Inr (if sum_pool L then pooled_of B H W (output_dim L) (cbp_of L bottom1 bottom2)
                else cbp_of L bottom1 bottom2)"
  by (simp add: forward_cbp_of[OF assms] pooled_of_def)

lemma valid_inputs_lin_left:
  assumes "valid_inputs L x z B H W" "valid_inputs L y z B H W"
  shows "valid_inputs L (tadd (tscale c x) y) z B H W"
  using assms by (simp add: valid_inputs_def wf_tadd_tscale)

lemma valid_inputs_lin_right:
  assumes "valid_inputs L z x B H W" "valid_inputs L z y B H W"
  shows "valid_inputs L z (tadd (tscale c x) y) B H W"
  using assms by (simp add: valid_inputs_def wf_tadd_tscale)

lemma shape_cbp_of: "shape b1 = [B, C, H, W] \<Longrightarrow> shape (cbp_of L b1 b2) = [B, H, W, output_dim L]"
  by (simp add: cbp_of_def)

text \<open>
  Claim C10. \<open>forward\<close> is bilinear in its inputs under exact arithmetic: with
  \<open>bottom2\<close> fixed, \<open>forward(c * x + y, bottom2) = c * forward(x, bottom2) +
  forward(y, bottom2)\<close> for every scalar \<open>c\<close> and valid inputs \<open>x\<close>, \<open>y\<close> of the same size,
  and in the same way it is linear in \<open>bottom2\<close> with \<open>bottom1\<close> fixed.
\<close>

theorem forward_bilinear:
  assumes L: "valid_layer L"
    and X: "valid_inputs L x1 x2 B H W"
    and Y1: "valid_inputs L y1 x2 B H W"
    and Y2: "valid_inputs L x1 y2 B H W"
  shows "\<exists>out out1 out2.
           forward L x1 x2 = Inr out \<and> forward L y1 x2 = Inr out1 \<and>
           forward L x1 y2 = Inr out2 \<and>
           forward L (tadd (tscale c x1) y1) x2 = Inr (tadd (tscale c out) out1) \<and>
           forward L x1 (tadd (tscale c x2) y2) = Inr (tadd (tscale c out) out2)"
proof -
  let ?D = "output_dim L"
  have sx1: "shape x1 = [B, input_dim1 L, H, W]" and sx2: "shape x2 = [B, input_dim2 L, H, W]"
    and wx1: "wf_tensor x1" and wx2: "wf_tensor x2"
    using X by (simp_all add: valid_inputs_def)
  have sy1: "shape y1 = [B, input_dim1 L, H, W]" and wy1: "wf_tensor y1"
    using Y1 by (simp_all add: valid_inputs_def)
  have sy2: "shape y2 = [B, input_dim2 L, H, W]" and wy2: "wf_tensor y2"
    using Y2 by (simp_all add: valid_inputs_def)
  have left: "cbp_of L (tadd (tscale c x1) y1) x2
              = tadd (tscale c (cbp_of L x1 x2)) (cbp_of L y1 x2)"
    by (rule cbp_of_lin_left[OF L wx1 wy1 sx1 sy1])
  have right: "cbp_of L x1 (tadd (tscale c x2) y2)
               = tadd (tscale c (cbp_of L x1 x2)) (cbp_of L x1 y2)"
    by (rule cbp_of_lin_right[OF L wx2 wy2 sx2 sy2 sx1])
  have s: "shape (cbp_of L x1 x2) = [B, H, W, ?D]" "shape (cbp_of L y1 x2) = [B, H, W, ?D]"
    "shape (cbp_of L x1 y2) = [B, H, W, ?D]"
    by (simp_all add: shape_cbp_of[OF sx1] shape_cbp_of[OF sy1])
  have pl: "pooled_of B H W ?D (tadd (tscale c (cbp_of L x1 x2)) (cbp_of L y1 x2))
            = tadd (tscale c (pooled_of B H W ?D (cbp_of L x1 x2)))
                   (pooled_of B H W ?D (cbp_of L y1 x2))"
    by (rule pooled_of_lin) (simp_all add: s)
  have pr: "pooled_of B H W ?D (tadd (tscale c (cbp_of L x1 x2)) (cbp_of L x1 y2))
            = tadd (tscale c (pooled_of B H W ?D (cbp_of L x1 x2)))
                   (pooled_of B H W ?D (cbp_of L x1 y2))"
    by (rule pooled_of_lin) (simp_all add: s)
  show ?thesis
    unfolding forward_pooled_of[OF L X] forward_pooled_of[OF L Y1] forward_pooled_of[OF L Y2]
      forward_pooled_of[OF L valid_inputs_lin_left[OF X Y1]]
      forward_pooled_of[OF L valid_inputs_lin_right[OF X Y2]]
    by (simp add: left right pl pr)
qed

theorem forward_bilinear_witness:
  "\<exists>out out1 out2.
     forward example_layer example_bottom1 example_bottom2 = Inr out \<and>
     forward example_layer example_bottom1' example_bottom2 = Inr out1 \<and>
     forward example_layer example_bottom1 example_bottom2' = Inr out2 \<and>
     forward example_layer \<lparr>shape = [1, 2, 2, 1], data = [4, 13, 12, 21]\<rparr> example_bottom2
       = Inr (tadd (tscale 3 out) out1) \<and>
     forward example_layer example_bottom1 \<lparr>shape = [1, 1, 2, 1], data = [4, 21]\<rparr>
       = Inr (tadd (tscale 3 out) out2)"
proof -
  have Y1: "valid_inputs example_layer example_bottom1' example_bottom2 1 2 1"
    by (simp add: valid_inputs_def example_layer_def example_bottom1'_def example_bottom2_def
          wf_tensor_def)
  have Y2: "valid_inputs example_layer example_bottom1 example_bottom2' 1 2 1"
    by (simp add: valid_inputs_def example_layer_def example_bottom1_def example_bottom2'_def
          wf_tensor_def)
  have e1: "tadd (tscale 3 example_bottom1) example_bottom1'
            = \<lparr>shape = [1, 2, 2, 1], data = [4, 13, 12, 21]\<rparr>"
    by (simp add: tadd_def tscale_def example_bottom1_def example_bottom1'_def)
  have e2: "tadd (tscale 3 example_bottom2) example_bottom2'
            = \<lparr>shape = [1, 1, 2, 1], data = [4, 21]\<rparr>"
    by (simp add: tadd_def tscale_def example_bottom2_def example_bottom2'_def)
  show ?thesis
    using forward_bilinear[OF example_valid_layer example_valid_inputs Y1 Y2, of 3]
    unfolding e1 e2 .
qed

end
